theory Spec2Isabelle
  imports Main "HOL-Library.Sublist"
begin

section \<open>Python strings\<close>

text \<open>
  Text is a list of 8-bit characters. Every literal of the program is ASCII; case folding
  (\<open>str.lower\<close>, \<open>re.IGNORECASE\<close>) and whitespace are the ASCII ones.
\<close>

definition lower_char :: "char \<Rightarrow> char" where
  "lower_char c =
     (let n = (of_char c :: nat) in if 65 \<le> n \<and> n \<le> 90 then char_of (n + 32) else c)"

definition lower :: "string \<Rightarrow> string" where
  "lower s = map lower_char s"

text \<open>\<open>s.startswith(p)\<close>\<close>

fun startswith :: "string \<Rightarrow> string \<Rightarrow> bool" where
  "startswith s [] = True"
| "startswith [] (p # ps) = False"
| "startswith (c # cs) (p # ps) = (c = p \<and> startswith cs ps)"

text \<open>\<open>sub in s\<close>\<close>

fun py_in :: "string \<Rightarrow> string \<Rightarrow> bool" where
  "py_in sub [] = (sub = [])"
| "py_in sub (c # cs) = (startswith (c # cs) sub \<or> py_in sub cs)"

text \<open>\<open>s.find(sub)\<close>: the lowest index of an occurrence, or \<open>-1\<close>.\<close>

fun find_from :: "string \<Rightarrow> string \<Rightarrow> int \<Rightarrow> int" where
  "find_from [] sub i = (if sub = [] then i else - 1)"
| "find_from (c # cs) sub i =
     (if startswith (c # cs) sub then i else find_from cs sub (i + 1))"

definition py_find :: "string \<Rightarrow> string \<Rightarrow> int" where
  "py_find s sub = find_from s sub 0"

text \<open>\<open>s.rfind(sub)\<close>: the highest index of an occurrence, or \<open>-1\<close>.\<close>

fun rfind_from :: "string \<Rightarrow> string \<Rightarrow> int \<Rightarrow> int" where
  "rfind_from [] sub i = (if sub = [] then i else - 1)"
| "rfind_from (c # cs) sub i =
     (let r = rfind_from cs sub (i + 1)
      in if 0 \<le> r then r else if startswith (c # cs) sub then i else - 1)"

definition py_rfind :: "string \<Rightarrow> string \<Rightarrow> int" where
  "py_rfind s sub = rfind_from s sub 0"

text \<open>\<open>s[i:j]\<close> for \<open>0 \<le> i\<close> and \<open>0 \<le> j\<close>.\<close>

definition slice :: "string \<Rightarrow> int \<Rightarrow> int \<Rightarrow> string" where
  "slice s i j = take (nat j - nat i) (drop (nat i) s)"

text \<open>\<open>sep.join(xs)\<close>\<close>

fun join :: "string \<Rightarrow> string list \<Rightarrow> string" where
  "join sep [] = []"
| "join sep [x] = x"
| "join sep (x # y # ys) = x @ sep @ join sep (y # ys)"

text \<open>\<open>s.split("\n")\<close>: the pieces between line feeds, empty ones kept.\<close>

fun split_lines :: "string \<Rightarrow> string list" where
  "split_lines [] = [[]]"
| "split_lines (c # cs) =
     (if c = CHR 0x0A then [] # split_lines cs
      else (case split_lines cs of [] \<Rightarrow> [[c]] | l # ls \<Rightarrow> (c # l) # ls))"

definition is_space :: "char \<Rightarrow> bool" where
  "is_space c = (let n = (of_char c :: nat) in (9 \<le> n \<and> n \<le> 13) \<or> (28 \<le> n \<and> n \<le> 32))"

text \<open>\<open>s.strip()\<close>\<close>

definition strip :: "string \<Rightarrow> string" where
  "strip s = rev (dropWhile is_space (rev (dropWhile is_space s)))"

section \<open>Regular expressions used by the analyzer\<close>

text \<open>
  \<open>re.search(p, s)\<close> for a pattern without metacharacters is a substring test.
\<close>

definition re_search :: "string \<Rightarrow> string \<Rightarrow> bool" where
  "re_search pat s = py_in pat s"

text \<open>
  \<open>re.search("a|b|c", s, re.IGNORECASE)\<close> for literal alternatives, given as a list.
\<close>

definition re_search_icase :: "string list \<Rightarrow> string \<Rightarrow> bool" where
  "re_search_icase alts s = list_ex (\<lambda>p. py_in (lower p) (lower s)) alts"

text \<open>
  \<open>re.search\<close> for a pattern \<open>lit([^...]+)\<close> or \<open>lit([^...]+)'\<close>: the literal, then a
  greedy non-empty run of characters of the class, then (for the first table entry) a
  closing quote. The run can only end at a character outside the class or at the end of
  the text, so backtracking never finds a shorter match. The result is group 1 of the
  leftmost match.
\<close>

definition match_group_at :: "string \<Rightarrow> (char \<Rightarrow> bool) \<Rightarrow> bool \<Rightarrow> string \<Rightarrow> string option" where
  "match_group_at lit cls quoted s =
     (if startswith s lit then
        (let rest = drop (length lit) s; g = takeWhile cls rest; after = dropWhile cls rest
         in if g = [] then None
            else if quoted \<and> \<not> startswith after [CHR 0x27] then None
            else Some g)
      else None)"

fun search_group :: "string \<Rightarrow> (char \<Rightarrow> bool) \<Rightarrow> bool \<Rightarrow> string \<Rightarrow> string option" where
  "search_group lit cls quoted [] = match_group_at lit cls quoted []"
| "search_group lit cls quoted (c # cs) =
     (case match_group_at lit cls quoted (c # cs) of
        Some g \<Rightarrow> Some g
      | None \<Rightarrow> search_group lit cls quoted cs)"

section \<open>result\_analyzer.py: ResultAnalyzer\<close>

text \<open>
  The dictionary returned by \<open>analyze\<close>. The early return for an empty result has only the
  keys \<open>success\<close>, \<open>reason\<close> and \<open>terminate\<close>; the other keys are optional.
\<close>

record analysis =
  success :: bool
  has_error :: "bool option"
  success_patterns :: "string list option"
  terminate :: bool
  reason :: string
  summary :: "string option"

definition error_patterns :: "string list" where
  "error_patterns =
     [''ERROR:'', ''Error:'', ''Exception:'', ''failed with exit code'', ''Command failed'',
      ''Traceback (most recent call last)'', ''ModuleNotFoundError:'', ''ImportError:'',
      ''SyntaxError:'', ''NameError:'', ''TypeError:'', ''ValueError:'']"

definition check_for_errors :: "string \<Rightarrow> bool" where
  "check_for_errors result = list_ex (\<lambda>pattern. re_search pattern result) error_patterns"

definition identify_success_patterns :: "string \<Rightarrow> string list" where
  "identify_success_patterns result =
     (if py_in ''successfully'' (lower result) then [''success_keyword''] else []) @
     (if re_search_icase [''All tests passed'', ''Tests passed'', ''Test successful''] result
      then [''test_success''] else []) @
     (if re_search_icase [''Build successful'', ''Built successfully''] result
      then [''build_success''] else []) @
     (if re_search_icase [''Server started'', ''Running on'', ''Listening on''] result
      then [''server_started''] else [])"

definition should_terminate :: "string \<Rightarrow> bool \<Rightarrow> bool" where
  "should_terminate result succ =
     (if py_in ''CRITICAL ERROR'' result then True
      else if re_search_icase
                [''Optimization complete'', ''Goal achieved'', ''Success criteria met''] result
      then True
      else False)"

text \<open>
  The table of \<open>_determine_reason\<close>. The source writes the classes as \<open>[^\\n]\<close> in raw
  strings, which excludes the backslash and the letter \<open>n\<close> (not the line feed).
\<close>

definition not_quote :: "char \<Rightarrow> bool" where
  "not_quote c = (c \<noteq> CHR 0x27)"

definition not_backslash_n :: "char \<Rightarrow> bool" where
  "not_backslash_n c = (c \<noteq> CHR 0x5C \<and> c \<noteq> CHR ''n'')"

definition reason_table :: "(string \<times> (char \<Rightarrow> bool) \<times> bool \<times> string) list" where
  "reason_table =
     [(''ModuleNotFoundError: No module named '' @ [CHR 0x27], not_quote, True,
         ''Missing module: ''),
      (''ImportError: '', not_backslash_n, False, ''Import error: ''),
      (''SyntaxError: '', not_backslash_n, False, ''Syntax error: ''),
      (''TypeError: '', not_backslash_n, False, ''Type error: ''),
      (''ValueError: '', not_backslash_n, False, ''Value error: '')]"

fun first_reason :: "(string \<times> (char \<Rightarrow> bool) \<times> bool \<times> string) list \<Rightarrow> string \<Rightarrow> string" where
  "first_reason [] result = ''Execution failed with errors''"
| "first_reason ((lit, cls, quoted, msg) # tbl) result =
     (case search_group lit cls quoted result of
        Some g \<Rightarrow> msg @ g
      | None \<Rightarrow> first_reason tbl result)"

definition determine_reason :: "string \<Rightarrow> bool \<Rightarrow> bool \<Rightarrow> string" where
  "determine_reason result succ term =
     (if term then
        (if py_in ''CRITICAL ERROR'' result then ''Critical error occurred''
         else if succ then ''Success criteria met''
         else ''Termination condition detected'')
      else if \<not> succ then first_reason reason_table result
      else ''Execution completed successfully'')"

definition summarize_result :: "string \<Rightarrow> string" where
  "summarize_result result =
     (let lines = split_lines (strip result);
          relevant_lines =
            take 5 lines @
            filter (\<lambda>line. list_ex (\<lambda>error_word. py_in error_word line)
                              [''error'', ''exception'', ''failed'', ''traceback''])
                   (drop 5 lines)
      in join [CHR 0x0A]
           (if length relevant_lines > 10 then take 10 relevant_lines @ [''...'']
            else relevant_lines))"

definition analyze :: "string \<Rightarrow> analysis" where
  "analyze result =
     (if result = [] then
        \<lparr>success = False, has_error = None, success_patterns = None, terminate = False,
         reason = ''Empty result'', summary = None\<rparr>
      else
        (let err = check_for_errors result;
             pats = identify_success_patterns result;
             succ = (\<not> err \<and> length pats > 0);
             term = should_terminate result succ
         in \<lparr>success = succ, has_error = Some err, success_patterns = Some pats,
             terminate = term, reason = determine_reason result succ term,
             summary = Some (summarize_result result)\<rparr>))"

section \<open>Python values and exceptions\<close>

text \<open>
  The values \<open>json.loads\<close> produces and the program passes on untyped. A number is kept
  as its literal text (also \<open>NaN\<close>, \<open>Infinity\<close> and \<open>-Infinity\<close>, which Python accepts);
  a dictionary is the list of its items in insertion order, with distinct keys.
\<close>

datatype json =
    JNull
  | JBool bool
  | JNumber string
  | JStr string
  | JArr "json list"
  | JObj "(string \<times> json) list"

datatype exn =
    ValueError string
  | TypeError
  | AttributeError
  | JSONDecodeError
  | FileNotFoundError
  | FileExistsError
  | NotADirectoryError
  | IsADirectoryError
  | UnboundLocalError
  | UnicodeEncodeError
  | ExternalError string

text \<open>\<open>d[k] = v\<close>\<close>

fun dict_set :: "string \<Rightarrow> json \<Rightarrow> (string \<times> json) list \<Rightarrow> (string \<times> json) list" where
  "dict_set k v [] = [(k, v)]"
| "dict_set k v ((k', v') # d) = (if k' = k then (k, v) # d else (k', v') # dict_set k v d)"

text \<open>\<open>d.get(k, default)\<close>\<close>

definition dict_get :: "(string \<times> json) list \<Rightarrow> string \<Rightarrow> json \<Rightarrow> json" where
  "dict_get d k dflt = (case map_of d k of Some v \<Rightarrow> v | None \<Rightarrow> dflt)"

definition is_digit :: "char \<Rightarrow> bool" where
  "is_digit c = (let n = (of_char c :: nat) in 48 \<le> n \<and> n \<le> 57)"

text \<open>
  A number literal is zero when its mantissa has only zero digits. (A literal that
  underflows to \<open>0.0\<close> is not treated as zero here.)
\<close>

definition is_zero_number :: "string \<Rightarrow> bool" where
  "is_zero_number s =
     (let mantissa = takeWhile (\<lambda>c. c \<noteq> CHR ''e'' \<and> c \<noteq> CHR ''E'') s;
          ds = filter is_digit mantissa
      in ds \<noteq> [] \<and> list_all (\<lambda>c. c = CHR ''0'') ds)"

text \<open>Truth value of a Python object, as \<open>not path\<close> tests it.\<close>

fun truthy :: "json \<Rightarrow> bool" where
  "truthy JNull = False"
| "truthy (JBool b) = b"
| "truthy (JNumber s) = (\<not> is_zero_number s)"
| "truthy (JStr s) = (s \<noteq> [])"
| "truthy (JArr xs) = (xs \<noteq> [])"
| "truthy (JObj d) = (d \<noteq> [])"

text \<open>
  \<open>for x in v\<close>: the items a loop over the object visits, or the \<open>TypeError\<close> of an
  object that is not iterable. A string yields its characters and a dictionary its keys.
\<close>

fun py_iter :: "json \<Rightarrow> exn + json list" where
  "py_iter (JArr xs) = Inr xs"
| "py_iter (JStr s) = Inr (map (\<lambda>c. JStr [c]) s)"
| "py_iter (JObj d) = Inr (map (\<lambda>(k, v). JStr k) d)"
| "py_iter v = Inl TypeError"

section \<open>json.loads\<close>

text \<open>
  The decoder of the standard library, as a scanner that cuts the text into tokens and a
  push-down automaton over the tokens. It accepts what \<open>json.loads\<close> accepts with its
  default arguments: the JSON grammar, the constants \<open>NaN\<close>, \<open>Infinity\<close> and
  \<open>-Infinity\<close>, no control character inside a string, the whitespace characters space,
  tab, line feed and carriage return. Limits of the interpreter (recursion depth, the
  digit limit of integers) are not part of the model.
\<close>

datatype token =
    LBrace | RBrace | LBrack | RBrack | Colon | Comma
  | TString string
  | TNumber string
  | TWord string

text \<open>
  Scanner modes: between tokens; in a string (with the characters decoded so far and an
  escaped high surrogate that waits for its low surrogate); after a backslash; in the
  hexadecimal digits of \<open>\u\<close>; in a number; in a word.
\<close>

datatype mode =
    Top
  | InStr string "nat option"
  | InEsc string "nat option"
  | InHex string "nat option" string
  | InNum string
  | InWord string

definition is_ws :: "char \<Rightarrow> bool" where
  "is_ws c = (c = CHR '' '' \<or> c = CHR 0x09 \<or> c = CHR 0x0A \<or> c = CHR 0x0D)"

definition is_alpha :: "char \<Rightarrow> bool" where
  "is_alpha c =
     (let n = (of_char c :: nat) in (65 \<le> n \<and> n \<le> 90) \<or> (97 \<le> n \<and> n \<le> 122))"

definition is_num_char :: "char \<Rightarrow> bool" where
  "is_num_char c =
     (is_digit c \<or> c = CHR ''-'' \<or> c = CHR ''+'' \<or> c = CHR ''.'' \<or> c = CHR ''e'' \<or> c = CHR ''E'')"

definition hex_value :: "char \<Rightarrow> nat option" where
  "hex_value c =
     (let n = (of_char c :: nat)
      in if 48 \<le> n \<and> n \<le> 57 then Some (n - 48)
         else if 65 \<le> n \<and> n \<le> 70 then Some (n - 55)
         else if 97 \<le> n \<and> n \<le> 102 then Some (n - 87)
         else None)"

fun hex_number :: "string \<Rightarrow> nat \<Rightarrow> nat option" where
  "hex_number [] acc = Some acc"
| "hex_number (c # cs) acc =
     (case hex_value c of None \<Rightarrow> None | Some d \<Rightarrow> hex_number cs (16 * acc + d))"

text \<open>The UTF-8 bytes of a code point (a lone surrogate is written like any other).\<close>

definition utf8 :: "nat \<Rightarrow> string" where
  "utf8 n =
     (if n < 128 then [char_of n]
      else if n < 2048 then [char_of (192 + n div 64), char_of (128 + n mod 64)]
      else if n < 65536 then
        [char_of (224 + n div 4096), char_of (128 + (n div 64) mod 64), char_of (128 + n mod 64)]
      else
        [char_of (240 + n div 262144), char_of (128 + (n div 4096) mod 64),
         char_of (128 + (n div 64) mod 64), char_of (128 + n mod 64)])"

definition is_high_surrogate :: "nat \<Rightarrow> bool" where
  "is_high_surrogate n = (55296 \<le> n \<and> n \<le> 56319)"

definition is_low_surrogate :: "nat \<Rightarrow> bool" where
  "is_low_surrogate n = (56320 \<le> n \<and> n \<le> 57343)"

definition join_surrogates :: "nat \<Rightarrow> nat \<Rightarrow> nat" where
  "join_surrogates hi lo = 65536 + (hi - 55296) * 1024 + (lo - 56320)"

definition flush :: "string \<Rightarrow> nat option \<Rightarrow> string" where
  "flush acc pending = (case pending of None \<Rightarrow> acc | Some hi \<Rightarrow> acc @ utf8 hi)"

definition simple_escape :: "char \<Rightarrow> char option" where
  "simple_escape c =
     (if c = CHR 0x22 then Some (CHR 0x22)
      else if c = CHR 0x5C then Some (CHR 0x5C)
      else if c = CHR ''/'' then Some (CHR ''/'')
      else if c = CHR ''b'' then Some (CHR 0x08)
      else if c = CHR ''f'' then Some (CHR 0x0C)
      else if c = CHR ''n'' then Some (CHR 0x0A)
      else if c = CHR ''r'' then Some (CHR 0x0D)
      else if c = CHR ''t'' then Some (CHR 0x09)
      else None)"

text \<open>
  The number grammar \<open>-?(0|[1-9][0-9]*)(\.[0-9]+)?([eE][-+]?[0-9]+)?\<close>, matched against a
  whole run of number characters.
\<close>

definition valid_exponent :: "string \<Rightarrow> bool" where
  "valid_exponent r =
     (case r of
        [] \<Rightarrow> True
      | c # r' \<Rightarrow>
          (c = CHR ''e'' \<or> c = CHR ''E'') \<and>
          (let ds = (case r' of
                       [] \<Rightarrow> []
                     | s # r'' \<Rightarrow> if s = CHR ''+'' \<or> s = CHR ''-'' then r'' else r')
           in ds \<noteq> [] \<and> list_all is_digit ds))"

definition valid_fraction :: "string \<Rightarrow> bool" where
  "valid_fraction r =
     (case r of
        [] \<Rightarrow> True
      | c # r' \<Rightarrow>
          if c = CHR ''.'' then takeWhile is_digit r' \<noteq> [] \<and> valid_exponent (dropWhile is_digit r')
          else valid_exponent r)"

definition valid_number :: "string \<Rightarrow> bool" where
  "valid_number s =
     (let u = (case s of [] \<Rightarrow> [] | c # r \<Rightarrow> if c = CHR ''-'' then r else s);
          ip = takeWhile is_digit u
      in (case ip of
            [] \<Rightarrow> False
          | d # ds \<Rightarrow> (d \<noteq> CHR ''0'' \<or> ds = []) \<and> valid_fraction (dropWhile is_digit u)))"

definition valid_word :: "string \<Rightarrow> bool" where
  "valid_word w =
     (w = ''true'' \<or> w = ''false'' \<or> w = ''null'' \<or> w = ''NaN'' \<or> w = ''Infinity''
      \<or> w = ''-Infinity'')"

text \<open>A character where a token may start: the next mode and the tokens it completes.\<close>

definition top_char :: "char \<Rightarrow> (mode \<times> token list) option" where
  "top_char c =
     (if is_ws c then Some (Top, [])
      else if c = CHR ''{'' then Some (Top, [LBrace])
      else if c = CHR ''}'' then Some (Top, [RBrace])
      else if c = CHR ''['' then Some (Top, [LBrack])
      else if c = CHR '']'' then Some (Top, [RBrack])
      else if c = CHR '':'' then Some (Top, [Colon])
      else if c = CHR '','' then Some (Top, [Comma])
      else if c = CHR 0x22 then Some (InStr [] None, [])
      else if c = CHR ''-'' \<or> is_digit c then Some (InNum [c], [])
      else if is_alpha c then Some (InWord [c], [])
      else None)"

definition emit_then :: "token \<Rightarrow> char \<Rightarrow> (mode \<times> token list) option" where
  "emit_then t c = (case top_char c of None \<Rightarrow> None | Some (m, ts) \<Rightarrow> Some (m, t # ts))"

fun lex_step :: "mode \<Rightarrow> char \<Rightarrow> (mode \<times> token list) option" where
  "lex_step Top c = top_char c"
| "lex_step (InStr acc pending) c =
     (if c = CHR 0x5C then Some (InEsc acc pending, [])
      else if c = CHR 0x22 then Some (Top, [TString (flush acc pending)])
      else if (of_char c :: nat) < 32 then None
      else Some (InStr (flush acc pending @ [c]) None, []))"
| "lex_step (InEsc acc pending) c =
     (if c = CHR ''u'' then Some (InHex acc pending [], [])
      else (case simple_escape c of
              None \<Rightarrow> None
            | Some e \<Rightarrow> Some (InStr (flush acc pending @ [e]) None, [])))"
| "lex_step (InHex acc pending hs) c =
     (if length hs < 3 then
        (case hex_value c of None \<Rightarrow> None | Some d \<Rightarrow> Some (InHex acc pending (hs @ [c]), []))
      else
        (case hex_number (hs @ [c]) 0 of
           None \<Rightarrow> None
         | Some v \<Rightarrow>
             (case pending of
                Some hi \<Rightarrow>
                  if is_low_surrogate v then Some (InStr (acc @ utf8 (join_surrogates hi v)) None, [])
                  else if is_high_surrogate v then Some (InStr (acc @ utf8 hi) (Some v), [])
                  else Some (InStr (acc @ utf8 hi @ utf8 v) None, [])
              | None \<Rightarrow>
                  if is_high_surrogate v then Some (InStr acc (Some v), [])
                  else Some (InStr (acc @ utf8 v) None, []))))"
| "lex_step (InNum acc) c =
     (if is_num_char c then Some (InNum (acc @ [c]), [])
      else if acc = ''-'' \<and> c = CHR ''I'' then Some (InWord ''-I'', [])
      else if valid_number acc then emit_then (TNumber acc) c
      else None)"
| "lex_step (InWord acc) c =
     (if is_alpha c then Some (InWord (acc @ [c]), [])
      else if valid_word acc then emit_then (TWord acc) c
      else None)"

fun lex_end :: "mode \<Rightarrow> token list option" where
  "lex_end Top = Some []"
| "lex_end (InNum acc) = (if valid_number acc then Some [TNumber acc] else None)"
| "lex_end (InWord acc) = (if valid_word acc then Some [TWord acc] else None)"
| "lex_end m = None"

fun lex :: "mode \<Rightarrow> string \<Rightarrow> token list option" where
  "lex m [] = lex_end m"
| "lex m (c # cs) =
     (case lex_step m c of
        None \<Rightarrow> None
      | Some (m', ts) \<Rightarrow> (case lex m' cs of None \<Rightarrow> None | Some r \<Rightarrow> Some (ts @ r)))"

text \<open>
  The automaton over the tokens. A frame is an open array with its items, or an open
  object with its items and the key that waits for its value.
\<close>

datatype frame =
    ArrF "json list"
  | ObjF "(string \<times> json) list" "string option"

datatype expect =
    EValue | EValueOrClose | EKeyOrClose | EKey | EColon | ECommaOrClose | EEnd json

definition word_value :: "string \<Rightarrow> json" where
  "word_value w =
     (if w = ''true'' then JBool True
      else if w = ''false'' then JBool False
      else if w = ''null'' then JNull
      else JNumber w)"

text \<open>A value is complete: it is the result, or an item of the innermost open frame.\<close>

fun push_value :: "json \<Rightarrow> frame list \<Rightarrow> (expect \<times> frame list) option" where
  "push_value v [] = Some (EEnd v, [])"
| "push_value v (ArrF items # st) = Some (ECommaOrClose, ArrF (items @ [v]) # st)"
| "push_value v (ObjF items (Some k) # st) = Some (ECommaOrClose, ObjF (dict_set k v items) None # st)"
| "push_value v (ObjF items None # st) = None"

definition start_value :: "token \<Rightarrow> frame list \<Rightarrow> (expect \<times> frame list) option" where
  "start_value t st =
     (case t of
        TString s \<Rightarrow> push_value (JStr s) st
      | TNumber n \<Rightarrow> push_value (JNumber n) st
      | TWord w \<Rightarrow> push_value (word_value w) st
      | LBrack \<Rightarrow> Some (EValueOrClose, ArrF [] # st)
      | LBrace \<Rightarrow> Some (EKeyOrClose, ObjF [] None # st)
      | _ \<Rightarrow> None)"

definition close_frame :: "token \<Rightarrow> frame list \<Rightarrow> (expect \<times> frame list) option" where
  "close_frame t st =
     (case (t, st) of
        (RBrack, ArrF items # st') \<Rightarrow> push_value (JArr items) st'
      | (RBrace, ObjF items None # st') \<Rightarrow> push_value (JObj items) st'
      | _ \<Rightarrow> None)"

definition read_key :: "token \<Rightarrow> frame list \<Rightarrow> (expect \<times> frame list) option" where
  "read_key t st =
     (case (t, st) of
        (TString k, ObjF items None # st') \<Rightarrow> Some (EColon, ObjF items (Some k) # st')
      | _ \<Rightarrow> None)"

fun parse_step :: "expect \<Rightarrow> frame list \<Rightarrow> token \<Rightarrow> (expect \<times> frame list) option" where
  "parse_step EValue st t = start_value t st"
| "parse_step EValueOrClose st t = (if t = RBrack then close_frame t st else start_value t st)"
| "parse_step EKeyOrClose st t = (if t = RBrace then close_frame t st else read_key t st)"
| "parse_step EKey st t = read_key t st"
| "parse_step EColon st t = (if t = Colon then Some (EValue, st) else None)"
| "parse_step ECommaOrClose st t =
     (if t = Comma then
        (case st of
           ArrF items # st' \<Rightarrow> Some (EValue, st)
         | ObjF items k # st' \<Rightarrow> Some (EKey, st)
         | [] \<Rightarrow> None)
      else close_frame t st)"
| "parse_step (EEnd v) st t = None"

fun parse_tokens :: "expect \<Rightarrow> frame list \<Rightarrow> token list \<Rightarrow> json option" where
  "parse_tokens e st [] = (case e of EEnd v \<Rightarrow> Some v | _ \<Rightarrow> None)"
| "parse_tokens e st (t # ts) =
     (case parse_step e st t of None \<Rightarrow> None | Some (e', st') \<Rightarrow> parse_tokens e' st' ts)"

definition json_loads :: "string \<Rightarrow> exn + json" where
  "json_loads s =
     (case lex Top s of
        None \<Rightarrow> Inl JSONDecodeError
      | Some ts \<Rightarrow> (case parse_tokens EValue [] ts of
                     None \<Rightarrow> Inl JSONDecodeError
                   | Some v \<Rightarrow> Inr v))"

section \<open>main.py: AutoCodeforge.parse\_response\<close>

text \<open>
  The replies \<open>parse_response\<close> tells apart. A block has a type and a text, each absent
  or any value.
  \<^item> \<open>MessageObject\<close>: an object with an attribute \<open>content\<close>, a list of block objects;
  \<^item> \<open>ResponseDict d orig\<close>: a dictionary with the items \<open>d\<close>; \<open>orig\<close> is present when
    the dictionary has a key \<open>_original\<close> whose value has an attribute \<open>choices\<close>, and is
    the text \<open>choices[0].message.content\<close> evaluates to, or the exception raised on the way
    (also by the first string operation on a content that is not text);
  \<^item> \<open>OtherObject s\<close>: any other object, \<open>s\<close> being \<open>str(response)\<close>; a reply that is
    plain text is of this kind.
\<close>

datatype block = Block "json option" "json option"

datatype response =
    MessageObject "block list"
  | ResponseDict "(string \<times> json) list" "(exn + string) option"
  | OtherObject string

fun object_blocks_text :: "block list \<Rightarrow> string \<Rightarrow> exn + string" where
  "object_blocks_text [] response_text = Inr response_text"
| "object_blocks_text (Block ty tx # blocks) response_text =
     (if ty = Some (JStr ''text'') then
        (case tx of
           None \<Rightarrow> Inl AttributeError
         | Some (JStr t) \<Rightarrow> object_blocks_text blocks (response_text @ t)
         | Some _ \<Rightarrow> Inl TypeError)
      else object_blocks_text blocks response_text)"

fun dict_blocks_text :: "json list \<Rightarrow> string \<Rightarrow> exn + string" where
  "dict_blocks_text [] response_text = Inr response_text"
| "dict_blocks_text (content_block # blocks) response_text =
     (case content_block of
        JObj b \<Rightarrow>
          (if dict_get b ''type'' JNull = JStr ''text'' then
             (case dict_get b ''text'' (JStr []) of
                JStr t \<Rightarrow> dict_blocks_text blocks (response_text @ t)
              | _ \<Rightarrow> Inl TypeError)
           else dict_blocks_text blocks response_text)
      | _ \<Rightarrow> Inl AttributeError)"

text \<open>The first half of \<open>parse_response\<close>: the text of the reply, or the exception raised.\<close>

fun extract_text :: "response \<Rightarrow> exn + string" where
  "extract_text (MessageObject blocks) = object_blocks_text blocks []"
| "extract_text (ResponseDict d orig) =
     (case map_of d ''content'' of
        Some content \<Rightarrow>
          (case py_iter content of
             Inl e \<Rightarrow> Inl e
           | Inr blocks \<Rightarrow> dict_blocks_text blocks [])
      | None \<Rightarrow> (case orig of Some r \<Rightarrow> r | None \<Rightarrow> Inr []))"
| "extract_text (OtherObject s) = Inr s"

definition empty_actions :: json where
  "empty_actions = JObj [(''file_actions'', JArr []), (''shell_actions'', JArr [])]"

text \<open>
  Both handlers of \<open>parse_response\<close> (\<open>except json.JSONDecodeError\<close> inside,
  \<open>except Exception\<close> outside) only log and fall through to the last \<open>return\<close>.
\<close>

definition parse_response :: "response \<Rightarrow> json" where
  "parse_response response =
     (case extract_text response of
        Inl e \<Rightarrow> empty_actions
      | Inr response_text \<Rightarrow>
          (let start_idx = py_find response_text ''{'';
               end_idx = py_rfind response_text ''}'' + 1
           in if start_idx \<ge> 0 \<and> end_idx > start_idx then
                (case json_loads (slice response_text start_idx end_idx) of
                   Inr actions \<Rightarrow> actions
                 | Inl e \<Rightarrow> empty_actions)
              else empty_actions))"

section \<open>os.path and the file system\<close>

text \<open>\<open>s.split(sep)\<close> for a separator of one character.\<close>

fun split_char :: "char \<Rightarrow> string \<Rightarrow> string list" where
  "split_char sep [] = [[]]"
| "split_char sep (c # cs) =
     (if c = sep then [] # split_char sep cs
      else (case split_char sep cs of [] \<Rightarrow> [[c]] | l # ls \<Rightarrow> (c # l) # ls))"

definition endswith :: "string \<Rightarrow> string \<Rightarrow> bool" where
  "endswith s p = startswith (rev s) (rev p)"

text \<open>\<open>posixpath.join(a, b)\<close>\<close>

definition path_join :: "string \<Rightarrow> string \<Rightarrow> string" where
  "path_join a b =
     (if startswith b ''/'' then b
      else if a = [] \<or> endswith a ''/'' then a @ b
      else a @ ''/'' @ b)"

text \<open>The loop of \<open>posixpath.normpath\<close> over the components.\<close>

fun norm_comps :: "nat \<Rightarrow> string list \<Rightarrow> string list \<Rightarrow> string list" where
  "norm_comps initial_slashes [] new_comps = new_comps"
| "norm_comps initial_slashes (name # comps) new_comps =
     (if name = [] \<or> name = ''.'' then norm_comps initial_slashes comps new_comps
      else if name \<noteq> ''..'' \<or> (initial_slashes = 0 \<and> new_comps = [])
              \<or> (new_comps \<noteq> [] \<and> last new_comps = ''..'')
      then norm_comps initial_slashes comps (new_comps @ [name])
      else if new_comps \<noteq> [] then norm_comps initial_slashes comps (butlast new_comps)
      else norm_comps initial_slashes comps new_comps)"

definition normpath :: "string \<Rightarrow> string" where
  "normpath path =
     (if path = [] then ''.''
      else
        (let initial_slashes =
               (if startswith path ''/'' then
                  (if startswith path ''//'' \<and> \<not> startswith path ''///'' then 2 else 1)
                else 0);
             comps = norm_comps initial_slashes (split_char (CHR ''/'') path) [];
             p = replicate initial_slashes (CHR ''/'') @ join ''/'' comps
         in if p = [] then ''.'' else p))"

text \<open>\<open>posixpath.dirname(p)\<close>\<close>

definition dirname :: "string \<Rightarrow> string" where
  "dirname p =
     (let i = py_rfind p ''/'' + 1;
          head = slice p 0 i
      in if head \<noteq> [] \<and> head \<noteq> replicate (length head) (CHR ''/'')
         then rev (dropWhile (\<lambda>c. c = CHR ''/'') (rev head))
         else head)"

text \<open>
  The file system maps the components of an absolute path to a file with its content or
  to a directory; the root is a directory. There are no symbolic links and no limits of
  space, length or permission. A path is read from the root: the paths of the program are
  absolute, built on \<open>os.path.abspath\<close>. The rules are those of a POSIX system whose file
  names are encoded as UTF-8 with the \<open>surrogateescape\<close> handler.
\<close>

datatype node = File string | Dir

type_synonym filesystem = "string list \<Rightarrow> node option"

text \<open>The components of the normal form of a path.\<close>

definition resolve :: "string \<Rightarrow> string list" where
  "resolve p = norm_comps 1 (split_char (CHR ''/'') p) []"

definition lookup :: "filesystem \<Rightarrow> string list \<Rightarrow> node option" where
  "lookup fs cs = (if cs = [] then Some Dir else fs cs)"

text \<open>
  A surrogate code point in a text is, in its 8-bit form, the byte \<open>ED\<close> followed by a
  byte from \<open>A0\<close> to \<open>BF\<close>; \<open>allowed\<close> tells the second bytes an encoder lets through.
  The \<open>utf-8\<close> encoder lets none through. The encoder of file names lets through the
  code points \<open>U+DC80\<close> to \<open>U+DCFF\<close> (second byte \<open>B2\<close> or \<open>B3\<close>).
\<close>

fun surrogate_in :: "(nat \<Rightarrow> bool) \<Rightarrow> string \<Rightarrow> bool" where
  "surrogate_in allowed (c # d # cs) =
     ((of_char c = (237 :: nat) \<and> 160 \<le> (of_char d :: nat) \<and> (of_char d :: nat) \<le> 191
         \<and> \<not> allowed (of_char d))
      \<or> surrogate_in allowed (d # cs))"
| "surrogate_in allowed cs = False"

definition has_surrogate :: "string \<Rightarrow> bool" where
  "has_surrogate s = surrogate_in (\<lambda>n. False) s"

text \<open>
  What the conversion of a path for a system call raises: \<open>UnicodeEncodeError\<close> for a
  surrogate that cannot be encoded, \<open>ValueError\<close> for a null character.
\<close>

definition name_error :: "string \<Rightarrow> exn option" where
  "name_error p =
     (if surrogate_in (\<lambda>n. n = 178 \<or> n = 179) p then Some UnicodeEncodeError
      else if CHR 0x00 \<in> set p then Some (ValueError ''embedded null byte'')
      else None)"

text \<open>
  The walk of the operating system along the components of a path, from the directory
  \<open>cur\<close>: an empty component is skipped; any other component is looked up in \<open>cur\<close>,
  which has to be a directory, also for \<open>.\<close> and \<open>..\<close>. The result is the place the path
  names, where there may be nothing.
\<close>

fun walk :: "filesystem \<Rightarrow> string list \<Rightarrow> string list \<Rightarrow> exn + string list" where
  "walk fs cur [] = Inr cur"
| "walk fs cur (name # names) =
     (if name = [] then walk fs cur names
      else (case lookup fs cur of
              None \<Rightarrow> Inl FileNotFoundError
            | Some (File x) \<Rightarrow> Inl NotADirectoryError
            | Some Dir \<Rightarrow>
                walk fs (if name = ''.'' then cur
                         else if name = ''..'' then butlast cur
                         else cur @ [name]) names))"

definition locate :: "filesystem \<Rightarrow> string \<Rightarrow> exn + string list" where
  "locate fs p =
     (if p = [] then Inl FileNotFoundError
      else (case name_error p of
              Some e \<Rightarrow> Inl e
            | None \<Rightarrow> walk fs [] (split_char (CHR ''/'') p)))"

text \<open>
  \<open>os.path.exists(p)\<close>: whether \<open>os.stat\<close> succeeds. A file named with a slash at the end
  is refused by \<open>os.stat\<close>.
\<close>

definition path_exists :: "filesystem \<Rightarrow> string \<Rightarrow> bool" where
  "path_exists fs p =
     (case locate fs p of
        Inl e \<Rightarrow> False
      | Inr q \<Rightarrow>
          (case lookup fs q of
             None \<Rightarrow> False
           | Some Dir \<Rightarrow> True
           | Some (File x) \<Rightarrow> \<not> endswith p ''/''))"

text \<open>
  \<open>os.makedirs(name, exist_ok=True)\<close>: the directories are made from the left, each
  prefix of the path by a system call of its own, so that a missing directory is created
  before a later component is refused, and a created directory stays when a later
  component fails. A later \<open>..\<close> goes up from a directory made on the way.
\<close>

fun mkdir_walk :: "filesystem \<Rightarrow> string list \<Rightarrow> string list \<Rightarrow> exn option \<times> filesystem" where
  "mkdir_walk fs cur [] =
     (case lookup fs cur of
        Some Dir \<Rightarrow> (None, fs)
      | Some (File x) \<Rightarrow> (Some FileExistsError, fs)
      | None \<Rightarrow> (Some FileNotFoundError, fs))"
| "mkdir_walk fs cur (name # names) =
     (if name = [] then mkdir_walk fs cur names
      else (case name_error name of
              Some e \<Rightarrow> (Some e, fs)
            | None \<Rightarrow>
                (case lookup fs cur of
                   None \<Rightarrow> (Some FileNotFoundError, fs)
                 | Some (File x) \<Rightarrow> (Some NotADirectoryError, fs)
                 | Some Dir \<Rightarrow>
                     if name = ''.'' then mkdir_walk fs cur names
                     else if name = ''..'' then mkdir_walk fs (butlast cur) names
                     else if lookup fs (cur @ [name]) = None
                     then mkdir_walk (fs(cur @ [name] \<mapsto> Dir)) (cur @ [name]) names
                     else mkdir_walk fs (cur @ [name]) names)))"

definition makedirs :: "filesystem \<Rightarrow> string \<Rightarrow> exn option \<times> filesystem" where
  "makedirs fs name =
     (if name = [] then (Some FileNotFoundError, fs)
      else mkdir_walk fs [] (split_char (CHR ''/'') name))"

text \<open>
  \<open>open(p, 'w')\<close>: the place of the file, which exists and is empty afterwards. A path
  with a slash at the end is refused as a directory.
\<close>

definition open_w :: "filesystem \<Rightarrow> string \<Rightarrow> exn + string list \<times> filesystem" where
  "open_w fs p =
     (case locate fs p of
        Inl e \<Rightarrow> Inl e
      | Inr q \<Rightarrow>
          if endswith p ''/'' \<or> lookup fs q = Some Dir then Inl IsADirectoryError
          else Inr (q, fs(q \<mapsto> File [])))"

text \<open>\<open>os.remove(p)\<close>\<close>

definition remove_file :: "filesystem \<Rightarrow> string \<Rightarrow> exn + filesystem" where
  "remove_file fs p =
     (case locate fs p of
        Inl e \<Rightarrow> Inl e
      | Inr q \<Rightarrow>
          (case lookup fs q of
             None \<Rightarrow> Inl FileNotFoundError
           | Some Dir \<Rightarrow> Inl IsADirectoryError
           | Some (File x) \<Rightarrow>
               if endswith p ''/'' then Inl NotADirectoryError else Inr (fs(q := None))))"

section \<open>file\_manager.py: FileManager\<close>

text \<open>
  \<open>base_dir\<close> is \<open>self.project_path\<close>. A path that is not a string makes
  \<open>os.path.join\<close> raise \<open>TypeError\<close>.
\<close>

definition get_full_path :: "string \<Rightarrow> json \<Rightarrow> exn + string" where
  "get_full_path base_dir relative_path =
     (case relative_path of
        JStr rel \<Rightarrow>
          (let full_path = path_join base_dir rel;
               normalized_path = normpath full_path
           in if \<not> startswith normalized_path base_dir
              then Inl (ValueError (''Path traversal detected: '' @ rel))
              else Inr full_path)
      | _ \<Rightarrow> Inl TypeError)"

text \<open>
  An operation on the file system returns the exception it raised, if any, and the file
  system it leaves. The file is opened with the encoding \<open>utf-8\<close>: \<open>f.write(content)\<close>
  raises \<open>TypeError\<close> for a content that is not a string and \<open>UnicodeEncodeError\<close> for a
  string with a surrogate, after the file was opened and emptied.
\<close>

definition write_file :: "string \<Rightarrow> json \<Rightarrow> json \<Rightarrow> filesystem \<Rightarrow> exn option \<times> filesystem" where
  "write_file base_dir relative_path content fs =
     (case get_full_path base_dir relative_path of
        Inl e \<Rightarrow> (Some e, fs)
      | Inr full_path \<Rightarrow>
          (case makedirs fs (dirname full_path) of
             (Some e, fs1) \<Rightarrow> (Some e, fs1)
           | (None, fs1) \<Rightarrow>
               (case open_w fs1 full_path of
                  Inl e \<Rightarrow> (Some e, fs1)
                | Inr (f, fs2) \<Rightarrow>
                    (case content of
                       JStr body \<Rightarrow>
                         if has_surrogate body then (Some UnicodeEncodeError, fs2)
                         else (None, fs2(f \<mapsto> File body))
                     | _ \<Rightarrow> (Some TypeError, fs2)))))"

definition delete_file :: "string \<Rightarrow> json \<Rightarrow> filesystem \<Rightarrow> exn option \<times> filesystem" where
  "delete_file base_dir relative_path fs =
     (case get_full_path base_dir relative_path of
        Inl e \<Rightarrow> (Some e, fs)
      | Inr full_path \<Rightarrow>
          (if path_exists fs full_path then
             (case remove_file fs full_path of
                Inl e \<Rightarrow> (Some e, fs)
              | Inr fs1 \<Rightarrow> (None, fs1))
           else (None, fs)))"

section \<open>The collaborators outside the program\<close>

text \<open>\<open>str(n)\<close> for an integer.\<close>

fun str_nat :: "nat \<Rightarrow> string" where
  "str_nat n =
     (if n < 10 then [char_of (48 + n)] else str_nat (n div 10) @ [char_of (48 + n mod 10)])"

declare str_nat.simps [simp del]

definition str_int :: "int \<Rightarrow> string" where
  "str_int i = (if i < 0 then ''-'' @ str_nat (nat (- i)) else str_nat (nat i))"

text \<open>
  What \<open>subprocess.Popen\<close> and \<open>communicate\<close> come to: the process ended with a return
  code, its output and its error output; or the timeout expired; or another exception
  was raised, with its text.
\<close>

datatype proc_outcome =
    Exited int string string
  | TimeoutExpired
  | PopenError string

text \<open>
  The world is the file system and a state \<open>'x\<close> of everything else.
  \<^item> \<open>generate_code\<close>: the method of that name (the prompts built from the topic, the
    previous result, the iteration index and the files, sent to the model); it reads the
    file system and may raise;
  \<^item> \<open>run_process\<close>: the operating system running the argument vector in a directory
    with a timeout in seconds; a command may change the files;
  \<^item> \<open>str_value\<close>, \<open>str_exn\<close>: the text \<open>str()\<close> gives for a value that is not a string
    and for an exception;
  \<^item> \<open>console_encodes\<close>: whether the encoding of the standard output can encode a text
    that is not plain ASCII.
\<close>

record 'x env =
  generate_code ::
    "string \<Rightarrow> string option \<Rightarrow> nat \<Rightarrow> filesystem \<times> 'x \<Rightarrow> (exn + response) \<times> 'x"
  run_process ::
    "string list \<Rightarrow> string \<Rightarrow> nat \<Rightarrow> filesystem \<times> 'x \<Rightarrow> proc_outcome \<times> filesystem \<times> 'x"
  str_value :: "json \<Rightarrow> string"
  str_exn :: "exn \<Rightarrow> string"
  console_encodes :: "string \<Rightarrow> bool"

text \<open>
  \<open>print(line)\<close>: the exception it raises, if any. Every encoding of a console holds the
  ASCII characters; a line with another character that the console cannot encode raises
  \<open>UnicodeEncodeError\<close>. (The calls of \<open>logger\<close> do not raise: the logging module handles
  the errors of its handlers.)
\<close>

definition is_ascii :: "char \<Rightarrow> bool" where
  "is_ascii c = ((of_char c :: nat) < 128)"

definition print_line :: "'x env \<Rightarrow> string \<Rightarrow> exn option" where
  "print_line env line =
     (if list_all is_ascii line \<or> console_encodes env line then None
      else Some UnicodeEncodeError)"

fun print_lines :: "'x env \<Rightarrow> string list \<Rightarrow> exn option" where
  "print_lines env [] = None"
| "print_lines env (line # lines) =
     (case print_line env line of Some e \<Rightarrow> Some e | None \<Rightarrow> print_lines env lines)"

text \<open>A value in an f-string: a string as it is, any other value through \<open>str()\<close>.\<close>

definition format_value :: "'x env \<Rightarrow> json \<Rightarrow> string" where
  "format_value env v = (case v of JStr s \<Rightarrow> s | _ \<Rightarrow> str_value env v)"

section \<open>main.py: AutoCodeforge.execute\_file\_actions\<close>

text \<open>
  What the method logs, one record for each action: the diagnostics of a skipped action
  and the confirmations of an applied one.
\<close>

datatype event =
    SkippedEmptyPath "(string \<times> json) list"
  | CreatedFile json
  | ModifiedFile json
  | DeletedFile json
  | UnknownAction json json
  | ActionFailed json json exn

text \<open>
  The \<open>try\<close> block of the loop body: the exception raised in it, if any, by the file
  manager or by \<open>print\<close> after the record was logged.
\<close>

definition try_file_action ::
    "'x env \<Rightarrow> string \<Rightarrow> json \<Rightarrow> json \<Rightarrow> json \<Rightarrow> filesystem \<times> event list
       \<Rightarrow> exn option \<times> filesystem \<times> event list" where
  "try_file_action env base_dir action_type path content st =
     (case st of (fs, out) \<Rightarrow>
        if action_type = JStr ''create'' then
          (case write_file base_dir path content fs of
             (Some e, fs') \<Rightarrow> (Some e, fs', out)
           | (None, fs') \<Rightarrow>
               (print_line env (''Created file: '' @ format_value env path),
                fs', out @ [CreatedFile path]))
        else if action_type = JStr ''modify'' then
          (case write_file base_dir path content fs of
             (Some e, fs') \<Rightarrow> (Some e, fs', out)
           | (None, fs') \<Rightarrow>
               (print_line env (''Modified file: '' @ format_value env path),
                fs', out @ [ModifiedFile path]))
        else if action_type = JStr ''delete'' then
          (case delete_file base_dir path fs of
             (Some e, fs') \<Rightarrow> (Some e, fs', out)
           | (None, fs') \<Rightarrow>
               (print_line env (''Deleted file: '' @ format_value env path),
                fs', out @ [DeletedFile path]))
        else
          (print_line env (''Unknown file action: '' @ format_value env action_type
                             @ '' for '' @ format_value env path),
           fs, out @ [UnknownAction action_type path]))"

text \<open>
  The \<open>try\<close> block with its \<open>except Exception\<close>: the handler logs the failure and prints
  it, and an exception of that \<open>print\<close> leaves the method.
\<close>

definition apply_file_action ::
    "'x env \<Rightarrow> string \<Rightarrow> json \<Rightarrow> json \<Rightarrow> json \<Rightarrow> filesystem \<times> event list
       \<Rightarrow> exn option \<times> filesystem \<times> event list" where
  "apply_file_action env base_dir action_type path content st =
     (case try_file_action env base_dir action_type path content st of
        (None, st') \<Rightarrow> (None, st')
      | (Some e, fs', out') \<Rightarrow>
          (print_line env (''Error with file '' @ format_value env path @ '': '' @ str_exn env e),
           fs', out' @ [ActionFailed action_type path e]))"

text \<open>
  The body of the loop for an action that is a dictionary: the three \<open>get\<close>s, the test
  of the path (\<open>continue\<close>), the \<open>try\<close> statement.
\<close>

definition file_action_body ::
    "'x env \<Rightarrow> string \<Rightarrow> (string \<times> json) list \<Rightarrow> filesystem \<times> event list
       \<Rightarrow> exn option \<times> filesystem \<times> event list" where
  "file_action_body env base_dir action st =
     (let action_type = dict_get action ''action'' (JStr []);
          path = dict_get action ''path'' (JStr []);
          content = dict_get action ''content'' (JStr [])
      in if \<not> truthy path then (None, fst st, snd st @ [SkippedEmptyPath action])
         else apply_file_action env base_dir action_type path content st)"

text \<open>
  The loop: the exception that leaves it, if any, and the state it leaves. The items are
  annotated \<open>Dict[str, Any]\<close>; on an item that is not a dictionary \<open>action.get\<close> raises
  \<open>AttributeError\<close> outside the \<open>try\<close>.
\<close>

fun execute_file_actions ::
    "'x env \<Rightarrow> string \<Rightarrow> json list \<Rightarrow> filesystem \<times> event list
       \<Rightarrow> exn option \<times> filesystem \<times> event list" where
  "execute_file_actions env base_dir [] st = (None, st)"
| "execute_file_actions env base_dir (action # file_actions) st =
     (case action of
        JObj d \<Rightarrow>
          (case file_action_body env base_dir d st of
             (None, st') \<Rightarrow> execute_file_actions env base_dir file_actions st'
           | (Some e, st') \<Rightarrow> (Some e, st'))
      | _ \<Rightarrow> (Some AttributeError, st))"

section \<open>shell\_executor.py: PowerShellExecutor.execute\<close>

text \<open>\<open>s.replace("'", "''")\<close>\<close>

definition escape_quotes :: "string \<Rightarrow> string" where
  "escape_quotes s = concat (map (\<lambda>c. if c = CHR 0x27 then [CHR 0x27, CHR 0x27] else [c]) s)"

definition ps_command :: "string \<Rightarrow> string \<Rightarrow> string list" where
  "ps_command working_directory command =
     [''powershell.exe'', ''-NoProfile'', ''-ExecutionPolicy'', ''Bypass'', ''-Command'',
      (if working_directory \<noteq> [] then
         ''Set-Location -Path '' @ [CHR 0x27] @ escape_quotes working_directory @ [CHR 0x27]
           @ ''; '' @ command
       else command)]"

text \<open>The \<open>try\<close> block of \<open>execute\<close>: every outcome becomes a string.\<close>

definition run_command ::
    "'x env \<Rightarrow> string \<Rightarrow> string \<Rightarrow> nat \<Rightarrow> filesystem \<times> 'x \<Rightarrow> string \<times> filesystem \<times> 'x" where
  "run_command env working_directory command timeout w =
     (case run_process env (ps_command working_directory command) working_directory timeout w of
        (Exited returncode stdout stderr, w') \<Rightarrow>
          (if returncode \<noteq> 0 then
             ''ERROR: '' @ ''PowerShell command failed with exit code '' @ str_int returncode
               @ '': '' @ stderr @ [CHR 0x0A] @ stdout
           else stdout, w')
      | (TimeoutExpired, w') \<Rightarrow>
          (''ERROR: '' @ ''Command timed out after '' @ str_nat timeout @ '' seconds'', w')
      | (PopenError msg, w') \<Rightarrow>
          (''ERROR: '' @ ''Error executing PowerShell command: '' @ msg, w'))"

text \<open>
  \<open>execute\<close>. The check of the working directory stands before the \<open>try\<close>:
  \<open>os.makedirs\<close> may raise there, and the exception leaves the method.
\<close>

definition execute ::
    "'x env \<Rightarrow> string \<Rightarrow> string \<Rightarrow> nat \<Rightarrow> filesystem \<times> 'x \<Rightarrow> (exn + string) \<times> filesystem \<times> 'x" where
  "execute env working_directory command timeout w =
     (case w of (fs, x) \<Rightarrow>
        if working_directory \<noteq> [] then
          (case (if \<not> path_exists fs working_directory then makedirs fs working_directory
                 else (None, fs)) of
             (Some e, fs1) \<Rightarrow> (Inl e, fs1, x)
           | (None, fs1) \<Rightarrow>
               if \<not> path_exists fs1 working_directory
               then (Inr (''ERROR: Working directory does not exist: '' @ working_directory),
                     fs1, x)
               else (case run_command env working_directory command timeout (fs1, x) of
                       (result, w') \<Rightarrow> (Inr result, w')))
        else (case run_command env working_directory command timeout (fs, x) of
                (result, w') \<Rightarrow> (Inr result, w')))"

section \<open>main.py: AutoCodeforge.execute\_shell\_actions\<close>

text \<open>The two entries the loop appends to \<open>all_results\<close>.\<close>

definition result_block :: "string \<Rightarrow> string \<Rightarrow> string" where
  "result_block cmd result =
     ''Command: '' @ cmd @ [CHR 0x0A] @ ''Result:'' @ [CHR 0x0A] @ result @ [CHR 0x0A]"

definition error_message :: "'x env \<Rightarrow> string \<Rightarrow> exn \<Rightarrow> string" where
  "error_message env cmd e =
     ''Error executing command '' @ [CHR 0x27] @ cmd @ [CHR 0x27] @ '': '' @ str_exn env e"

definition error_block :: "'x env \<Rightarrow> string \<Rightarrow> exn \<Rightarrow> string" where
  "error_block env cmd e =
     ''Command: '' @ cmd @ [CHR 0x0A] @ ''Error: '' @ error_message env cmd e @ [CHR 0x0A]"

text \<open>
  The \<open>try\<close> block of the loop over the commands: the exception raised in it, if any, by
  the first \<open>print\<close>, by \<open>execute\<close>, or by the second \<open>print\<close>, which comes after the entry
  was appended. (The length of the result counts its 8-bit characters.)
\<close>

definition try_shell_command ::
    "'x env \<Rightarrow> string \<Rightarrow> string \<Rightarrow> string list \<Rightarrow> filesystem \<times> 'x
       \<Rightarrow> exn option \<times> string list \<times> filesystem \<times> 'x" where
  "try_shell_command env project_path cmd all_results w =
     (case print_line env (''Executing: '' @ cmd) of
        Some e \<Rightarrow> (Some e, all_results, w)
      | None \<Rightarrow>
          (case execute env project_path cmd 300 w of
             (Inl e, w') \<Rightarrow> (Some e, all_results, w')
           | (Inr result, w') \<Rightarrow>
               (print_line env (''Result: '' @ take 300 result
                                  @ (if length result > 300 then ''...'' else [])),
                all_results @ [result_block cmd result], w')))"

text \<open>
  The \<open>try\<close> block with its \<open>except Exception\<close>: the handler appends its entry, logs and
  prints, and an exception of that \<open>print\<close> leaves the method.
\<close>

definition shell_command_body ::
    "'x env \<Rightarrow> string \<Rightarrow> string \<Rightarrow> string list \<Rightarrow> filesystem \<times> 'x
       \<Rightarrow> exn option \<times> string list \<times> filesystem \<times> 'x" where
  "shell_command_body env project_path cmd all_results w =
     (case try_shell_command env project_path cmd all_results w of
        (None, r) \<Rightarrow> (None, r)
      | (Some e, all_results', w') \<Rightarrow>
          (print_line env (''Error: '' @ error_message env cmd e),
           all_results' @ [error_block env cmd e], w'))"

text \<open>The loop over the commands.\<close>

fun run_shell_commands ::
    "'x env \<Rightarrow> string \<Rightarrow> string list \<Rightarrow> string list \<Rightarrow> filesystem \<times> 'x
       \<Rightarrow> exn option \<times> string list \<times> filesystem \<times> 'x" where
  "run_shell_commands env project_path [] all_results w = (None, all_results, w)"
| "run_shell_commands env project_path (cmd # shell_actions) all_results w =
     (case shell_command_body env project_path cmd all_results w of
        (None, all_results', w') \<Rightarrow>
          run_shell_commands env project_path shell_actions all_results' w'
      | (Some e, r) \<Rightarrow> (Some e, r))"

definition check_cmd :: string where
  "check_cmd = ''Write-Output (Get-Location).Path''"

text \<open>
  The part of \<open>execute_shell_actions\<close> before the loop: the command that reports the
  directory, outside every \<open>try\<close>; its output is only logged and tested for \<open>ERROR:\<close>.
  The result is the world in which the loop starts.
\<close>

definition check_directory ::
    "'x env \<Rightarrow> string \<Rightarrow> filesystem \<times> 'x \<Rightarrow> exn + filesystem \<times> 'x" where
  "check_directory env project_path w =
     (case execute env project_path check_cmd 300 w of
        (Inl e, w') \<Rightarrow> Inl e
      | (Inr check_dir, (fs, x)) \<Rightarrow>
          if startswith check_dir ''ERROR:'' \<and> \<not> path_exists fs project_path then
            (case makedirs fs project_path of (r, fs1) \<Rightarrow> Inr (fs1, x))
          else Inr (fs, x))"

definition execute_shell_actions ::
    "'x env \<Rightarrow> string \<Rightarrow> string list \<Rightarrow> filesystem \<times> 'x \<Rightarrow> exn + string \<times> filesystem \<times> 'x" where
  "execute_shell_actions env project_path shell_actions w =
     (case check_directory env project_path w of
        Inl e \<Rightarrow> Inl e
      | Inr w1 \<Rightarrow>
          (case run_shell_commands env project_path shell_actions [] w1 of
             (Some e, all_results, w'') \<Rightarrow> Inl e
           | (None, all_results, w'') \<Rightarrow> Inr (join [CHR 0x0A] all_results, w'')))"

section \<open>main.py: AutoCodeforge.run\_cycle\<close>

text \<open>
  \<open>actions.get(key, [])\<close>; the result of \<open>parse_response\<close> is a dictionary, and on
  anything else \<open>get\<close> would raise.
\<close>

definition actions_get :: "json \<Rightarrow> string \<Rightarrow> exn + json" where
  "actions_get actions key =
     (case actions of JObj d \<Rightarrow> Inr (dict_get d key (JArr [])) | _ \<Rightarrow> Inl AttributeError)"

text \<open>
  The state of the cycle: the world, \<open>current_result\<close>, the loop variable \<open>i\<close> (unbound
  before the first iteration), and what the loop prints at the end of each iteration it
  completes: the index with the analysis.
\<close>

record 'x cycle =
  files :: filesystem
  outside :: 'x
  events :: "event list"
  current_result :: "string option"
  loop_i :: "nat option"
  completed :: "(nat \<times> analysis) list"

text \<open>
  Steps 1 to 5 of the loop body and the three lines it prints: the transcript, its
  analysis, the new state. A command that is not a string is formatted with \<open>str()\<close>
  wherever it is used.
\<close>

definition iteration ::
    "'x env \<Rightarrow> string \<Rightarrow> string \<Rightarrow> string \<Rightarrow> nat \<Rightarrow> 'x cycle \<Rightarrow> exn + analysis \<times> 'x cycle" where
  "iteration env base_dir project_path topic i c =
     (case generate_code env topic (current_result c) i (files c, outside c) of
        (Inl e, x1) \<Rightarrow> Inl e
      | (Inr response, x1) \<Rightarrow>
          (let actions = parse_response response
           in case actions_get actions ''file_actions'' of
                Inl e \<Rightarrow> Inl e
              | Inr fa \<Rightarrow>
                  (case py_iter fa of
                     Inl e \<Rightarrow> Inl e
                   | Inr file_actions \<Rightarrow>
                       (case execute_file_actions env base_dir file_actions (files c, events c) of
                          (Some e, st) \<Rightarrow> Inl e
                        | (None, fs1, out1) \<Rightarrow>
                            (case actions_get actions ''shell_actions'' of
                               Inl e \<Rightarrow> Inl e
                             | Inr sa \<Rightarrow>
                                 (case py_iter sa of
                                    Inl e \<Rightarrow> Inl e
                                  | Inr shell_actions \<Rightarrow>
                                      (case execute_shell_actions env project_path
                                              (map (format_value env) shell_actions) (fs1, x1) of
                                         Inl e \<Rightarrow> Inl e
                                       | Inr (result, fs2, x2) \<Rightarrow>
                                           (let analysis = analyze result
                                            in case print_lines env
                                                 [CHR 0x0A # ''Iteration '' @ str_nat (i + 1)
                                                    @ '' completed.'',
                                                  ''Status: ''
                                                    @ (if success analysis then ''Success''
                                                       else ''Failed''),
                                                  ''Result summary: '' @ reason analysis] of
                                                 Some e \<Rightarrow> Inl e
                                               | None \<Rightarrow>
                                                   Inr (analysis,
                                                     c\<lparr>files := fs2, outside := x2, events := out1,
                                                       current_result := Some result,
                                                       loop_i := Some i,
                                                       completed := completed c @ [(i, analysis)]\<rparr>)))))))))"

text \<open>
  \<open>for i in range(iterations)\<close> with its \<open>break\<close> after the line that announces the
  early termination: \<open>remaining\<close> counts the indices the range still holds, \<open>i\<close> is the
  next one.
\<close>

fun run_loop ::
    "'x env \<Rightarrow> string \<Rightarrow> string \<Rightarrow> string \<Rightarrow> nat \<Rightarrow> nat \<Rightarrow> 'x cycle \<Rightarrow> exn + 'x cycle" where
  "run_loop env base_dir project_path topic 0 i c = Inr c"
| "run_loop env base_dir project_path topic (Suc remaining) i c =
     (case iteration env base_dir project_path topic i c of
        Inl e \<Rightarrow> Inl e
      | Inr (analysis, c') \<Rightarrow>
          if terminate analysis then
            (case print_line env ([CHR 0x0A] @ ''Early termination: '' @ reason analysis) of
               Some e \<Rightarrow> Inl e
             | None \<Rightarrow> Inr c')
          else run_loop env base_dir project_path topic remaining (Suc i) c')"

text \<open>
  \<open>run_cycle\<close>: the loop, then the report of \<open>i + 1\<close> iterations, which raises when the
  loop never bound \<open>i\<close>, and the line with the project path. The result is the number
  reported and the final state.
\<close>

definition run_cycle ::
    "'x env \<Rightarrow> string \<Rightarrow> string \<Rightarrow> string \<Rightarrow> int \<Rightarrow> filesystem \<times> 'x \<Rightarrow> exn + nat \<times> 'x cycle" where
  "run_cycle env base_dir project_path topic iterations w =
     (case run_loop env base_dir project_path topic (nat iterations) 0
             \<lparr>files = fst w, outside = snd w, events = [], current_result = None,
              loop_i = None, completed = []\<rparr> of
        Inl e \<Rightarrow> Inl e
      | Inr c \<Rightarrow>
          (case loop_i c of
             None \<Rightarrow> Inl UnboundLocalError
           | Some i \<Rightarrow>
               (case print_lines env
                       [CHR 0x0A # ''AutoCodeforge cycle completed after '' @ str_nat (i + 1)
                          @ '' iterations.'',
                        ''Project is available at: '' @ project_path] of
                  Some e \<Rightarrow> Inl e
                | None \<Rightarrow> Inr (i + 1, c))))"

section \<open>Auxiliary definitions\<close>

text \<open>
  \<open>grows fs g\<close>: the file system \<open>g\<close> is \<open>fs\<close> with more directories, in places where \<open>fs\<close>
  has nothing.
\<close>

definition grows :: "filesystem \<Rightarrow> filesystem \<Rightarrow> bool" where
  "grows fs g = (\<forall>q. g q = fs q \<or> (fs q = None \<and> g q = Some Dir))"

text \<open>
  Example inputs: a file system with the project directory \<open>/ws/proj\<close>, and file actions
  without a path, of an unknown kind, with a path that leaves the project directory, on a
  directory, a plain one, and one whose path is a lone surrogate followed by \<open>.txt\<close> (the
  decoder gives the three bytes of \<open>lone_surrogate\<close> for the escape \<open>\ud800\<close>).
\<close>

definition example_fs :: filesystem where
  "example_fs = Map.empty([''ws''] \<mapsto> Dir, [''ws'', ''proj''] \<mapsto> Dir)"






definition lone_surrogate :: string where
  "lone_surrogate = [CHR 0xED, CHR 0xA0, CHR 0x80]"




text \<open>
  Example collaborators. In \<open>quiet_env\<close> the model answers with plain prose, every process
  prints \<open>ok\<close> and the console encodes every text. In \<open>wrecking_env\<close> a process whose
  command contains \<open>Remove-Item\<close> removes the project directory and leaves a file in place
  of its parent. In \<open>strict_env\<close> the console is a UTF-8 one, which encodes every text
  without a surrogate.
\<close>

definition quiet_env :: "unit env" where
  "quiet_env =
     \<lparr>generate_code = (\<lambda>topic current_result i w. (Inr (OtherObject ''no actions this time''), snd w)),
      run_process = (\<lambda>argv cwd timeout w. (Exited 0 ''ok'' [], w)),
      str_value = (\<lambda>v. ''value''),
      str_exn = (\<lambda>e. ''exception''),
      console_encodes = (\<lambda>line. True)\<rparr>"



text \<open>The payload \<open>{"explanation":"x","file_actions":[],"shell_actions":["echo hi"]}\<close>.\<close>

definition example_payload :: string where
  "example_payload =
     ''{'' @ [CHR 0x22] @ ''explanation'' @ [CHR 0x22] @ '':'' @ [CHR 0x22] @ ''x'' @ [CHR 0x22]
     @ '','' @ [CHR 0x22] @ ''file_actions'' @ [CHR 0x22] @ '':[],''
     @ [CHR 0x22] @ ''shell_actions'' @ [CHR 0x22] @ '':['' @ [CHR 0x22] @ ''echo hi''
     @ [CHR 0x22] @ '']}''"




text \<open>
  In \<open>finishing_env\<close> the model answers with the example payload and every process
  prints \<open>Goal achieved\<close>. In \<open>null_actions_env\<close> the model answers with the payload
  \<open>{"file_actions": null}\<close>.
\<close>

definition finishing_env :: "unit env" where
  "finishing_env =
     \<lparr>generate_code = (\<lambda>topic current_result i w. (Inr (OtherObject example_payload), snd w)),
      run_process = (\<lambda>argv cwd timeout w. (Exited 0 ''Goal achieved'' [], w)),
      str_value = (\<lambda>v. ''value''),
      str_exn = (\<lambda>e. ''exception''),
      console_encodes = (\<lambda>line. True)\<rparr>"

definition null_actions_env :: "unit env" where
  "null_actions_env =
     \<lparr>generate_code = (\<lambda>topic current_result i w.
         (Inr (OtherObject (''{'' @ [CHR 0x22] @ ''file_actions'' @ [CHR 0x22] @ '': null}'')), snd w)),
      run_process = (\<lambda>argv cwd timeout w. (Exited 0 ''ok'' [], w)),
      str_value = (\<lambda>v. ''value''),
      str_exn = (\<lambda>e. ''exception''),
      console_encodes = (\<lambda>line. True)\<rparr>"

section \<open>Properties of the string operations\<close>

lemma startswith_append: "startswith (p @ s) p"
  by (induction p) auto

lemma startswith_iff: "startswith s p = (\<exists>r. s = p @ r)"
  by (induction s p rule: startswith.induct) auto

lemma py_in_append: "py_in sub (pre @ sub @ post)"
proof (induction pre)
  case Nil
  show ?case
  proof (cases "sub @ post")
    case Nil
    then show ?thesis by simp
  next
    case (Cons c cs)
    have "startswith (sub @ post) sub" by (rule startswith_append)
    with Cons show ?thesis by simp
  qed
next
  case (Cons a pre)
  then show ?case by simp
qed

text \<open>\<open>py_in\<close> is the substring relation.\<close>

lemma py_in_iff: "py_in sub s = (\<exists>pre post. s = pre @ sub @ post)"
proof
  assume "py_in sub s"
  then show "\<exists>pre post. s = pre @ sub @ post"
  proof (induction s)
    case Nil
    then show ?case by simp
  next
    case (Cons c cs)
    show ?case
    proof (cases "startswith (c # cs) sub")
      case True
      then obtain r where "c # cs = sub @ r" by (auto simp: startswith_iff)
      then have "c # cs = [] @ sub @ r" by simp
      then show ?thesis by blast
    next
      case False
      with Cons.prems have "py_in sub cs" by simp
      then obtain pre post where "cs = pre @ sub @ post" using Cons.IH by blast
      then have "c # cs = (c # pre) @ sub @ post" by simp
      then show ?thesis by blast
    qed
  qed
next
  assume "\<exists>pre post. s = pre @ sub @ post"
  then show "py_in sub s" by (auto simp: py_in_append)
qed

section \<open>Properties of the analyzer\<close>

lemma check_for_errors_Nil: "check_for_errors [] = False"
  by (simp add: check_for_errors_def error_patterns_def re_search_def)

lemma identify_success_patterns_Nil: "identify_success_patterns [] = []"
  by (simp add: identify_success_patterns_def re_search_icase_def lower_def)

lemma analyze_success:
  "success (analyze t) = (\<not> check_for_errors t \<and> identify_success_patterns t \<noteq> [])"
  by (cases "t = []")
     (simp_all add: analyze_def check_for_errors_Nil identify_success_patterns_Nil Let_def)

text \<open>
  C3. For every transcript \<open>t\<close> the \<open>success\<close> entry of \<open>analyze t\<close> is true exactly when
  no pattern of the error list matches and the list of success tags is not empty (the
  empty transcript included: nothing matches it). Every transcript that contains
  \<open>Traceback (most recent call last)\<close>, whatever stands before and after it (for instance
  \<open>All tests passed\<close>), has \<open>has_error = True\<close> and \<open>success = False\<close>.
\<close>

theorem success_iff_no_error_and_pattern:
  "(success (analyze t) = (\<not> check_for_errors t \<and> identify_success_patterns t \<noteq> [])) \<and>
   has_error (analyze (pre @ ''Traceback (most recent call last)'' @ post)) = Some True \<and>
   success (analyze (pre @ ''Traceback (most recent call last)'' @ post)) = False"
proof -
  let ?t = "pre @ ''Traceback (most recent call last)'' @ post"
  have ne: "?t \<noteq> []" by simp
  have "py_in ''Traceback (most recent call last)'' ?t" by (rule py_in_append)
  then have c: "check_for_errors ?t"
    by (simp add: check_for_errors_def error_patterns_def re_search_def)
  have "has_error (analyze ?t) = Some True" using ne c by (simp add: analyze_def Let_def)
  moreover have "success (analyze ?t) = False" using c by (simp add: analyze_success)
  ultimately show ?thesis using analyze_success by blast
qed

text \<open>
  C4. Every transcript that contains \<open>CRITICAL ERROR\<close>, whatever stands before and after
  it (success phrases and termination phrases included), is analysed with
  \<open>terminate = True\<close> and the reason \<open>Critical error occurred\<close>.
\<close>

theorem critical_error_terminates:
  "terminate (analyze (pre @ ''CRITICAL ERROR'' @ post)) = True \<and>
   reason (analyze (pre @ ''CRITICAL ERROR'' @ post)) = ''Critical error occurred''"
proof -
  let ?t = "pre @ ''CRITICAL ERROR'' @ post"
  have ne: "?t \<noteq> []" by simp
  have c: "py_in ''CRITICAL ERROR'' ?t" by (rule py_in_append)
  then have t: "should_terminate ?t b" for b by (simp add: should_terminate_def)
  show ?thesis using ne c t
    by (simp add: analyze_def Let_def determine_reason_def)
qed


section \<open>Properties of the file system and the file manager\<close>

lemma lookup_upd_other: "q \<noteq> p \<Longrightarrow> lookup (fs(q := v)) p = lookup fs p"
  by (simp add: lookup_def)

lemma lookup_upd_same: "q \<noteq> [] \<Longrightarrow> lookup (fs(q := v)) q = v"
  by (simp add: lookup_def)

lemma lookup_nonempty: "q \<noteq> [] \<Longrightarrow> lookup fs q = fs q"
  by (simp add: lookup_def)

lemma lookup_not_dir_nonempty: "lookup fs q \<noteq> Some Dir \<Longrightarrow> q \<noteq> []"
  by (auto simp: lookup_def)

lemma walk_upd:
  "walk fs cur names = Inr q \<Longrightarrow> lookup fs q0 \<noteq> Some Dir \<Longrightarrow> walk (fs(q0 := v)) cur names = Inr q"
proof (induction names arbitrary: cur)
  case Nil
  then show ?case by simp
next
  case (Cons name names)
  show ?case
  proof (cases "name = []")
    case True
    with Cons show ?thesis by simp
  next
    case False
    with Cons.prems(1) have d: "lookup fs cur = Some Dir"
      by (auto split: option.splits node.splits)
    with Cons.prems(2) have "q0 \<noteq> cur" by auto
    then have d': "lookup (fs(q0 := v)) cur = Some Dir" using d by (simp add: lookup_upd_other)
    let ?next = "if name = ''.'' then cur else if name = ''..'' then butlast cur else cur @ [name]"
    from Cons.prems(1) False d have "walk fs ?next names = Inr q" by simp
    then have a: "walk (fs(q0 := v)) ?next names = Inr q" using Cons.prems(2) by (rule Cons.IH)
    have b: "walk (fs(q0 := v)) cur (name # names) = walk (fs(q0 := v)) ?next names"
      using False d' by (simp only: walk.simps if_False option.case node.case)
    from b a show ?thesis by (rule trans)
  qed
qed

lemma locate_upd:
  "locate fs p = Inr q \<Longrightarrow> lookup fs q0 \<noteq> Some Dir \<Longrightarrow> locate (fs(q0 := v)) p = Inr q"
  by (auto simp: locate_def split: if_splits option.splits intro: walk_upd)

lemma grows_refl: "grows fs fs"
  by (simp add: grows_def)

lemma grows_trans: "grows a b \<Longrightarrow> grows b c \<Longrightarrow> grows a c"
  unfolding grows_def by metis

lemma grows_mkdir: "fs q = None \<Longrightarrow> grows fs (fs(q \<mapsto> Dir))"
  by (simp add: grows_def)

lemma grows_antisym: "grows fs g \<Longrightarrow> grows g fs \<Longrightarrow> g = fs"
proof (rule ext)
  fix q
  assume a: "grows fs g" and b: "grows g fs"
  from a have "g q = fs q \<or> (fs q = None \<and> g q = Some Dir)" by (simp add: grows_def)
  moreover from b have "fs q = g q \<or> (g q = None \<and> fs q = Some Dir)" by (simp add: grows_def)
  ultimately show "g q = fs q" by auto
qed

lemma grows_lookup_some:
  assumes "grows fs g" and "lookup fs q = Some n"
  shows "lookup g q = Some n"
proof -
  from assms(1) have "g q = fs q \<or> (fs q = None \<and> g q = Some Dir)" by (simp add: grows_def)
  with assms(2) show ?thesis by (auto simp: lookup_def split: if_splits)
qed

lemma mkdir_walk_grows: "mkdir_walk fs cur names = (r, fs') \<Longrightarrow> grows fs fs'"
proof (induction names arbitrary: fs cur)
  case Nil
  then show ?case by (auto simp: grows_refl split: option.splits node.splits)
next
  case (Cons name names)
  show ?case
  proof (cases "name = []")
    case True
    with Cons show ?thesis by simp
  next
    case ne: False
    show ?thesis
    proof (cases "name_error name")
      case (Some e)
      with ne Cons.prems show ?thesis by (simp add: grows_refl)
    next
      case None
      show ?thesis
      proof (cases "lookup fs cur = Some Dir")
        case False
        with ne None Cons.prems show ?thesis
          by (auto simp: grows_refl split: option.splits node.splits)
      next
        case d: True
        show ?thesis
        proof (cases "name = ''.'' \<or> name = ''..''")
          case True
          with ne None d Cons.prems show ?thesis by (auto intro: Cons.IH)
        next
          case False
          show ?thesis
          proof (cases "lookup fs (cur @ [name]) = None")
            case True
            with ne None d False Cons.prems
            have m: "mkdir_walk (fs(cur @ [name] \<mapsto> Dir)) (cur @ [name]) names = (r, fs')" by simp
            then have "grows (fs(cur @ [name] \<mapsto> Dir)) fs'" by (rule Cons.IH)
            moreover from True have "grows fs (fs(cur @ [name] \<mapsto> Dir))"
              by (intro grows_mkdir) (simp add: lookup_def)
            ultimately show ?thesis by (blast intro: grows_trans)
          next
            case ex: False
            with ne None d False Cons.prems
            have "mkdir_walk fs (cur @ [name]) names = (r, fs')" by simp
            then show ?thesis by (rule Cons.IH)
          qed
        qed
      qed
    qed
  qed
qed

lemma mkdir_walk_between:
  "mkdir_walk fs cur names = (r, fs') \<Longrightarrow> grows fs g \<Longrightarrow> grows g fs' \<Longrightarrow>
   mkdir_walk g cur names = (r, fs')"
proof (induction names arbitrary: fs cur g)
  case Nil
  from Nil.prems(1) have f: "fs' = fs" by (auto split: option.splits node.splits)
  with Nil.prems have "g = fs" by (auto intro: grows_antisym)
  with Nil.prems(1) show ?case by simp
next
  case (Cons name names)
  show ?case
  proof (cases "name = []")
    case True
    with Cons.prems have "mkdir_walk fs cur names = (r, fs')" by simp
    then have "mkdir_walk g cur names = (r, fs')" using Cons.prems(2,3) by (rule Cons.IH)
    with True show ?thesis by simp
  next
    case ne: False
    show ?thesis
    proof (cases "name_error name")
      case (Some e)
      with ne Cons.prems(1) have "fs' = fs" by simp
      with Cons.prems have "g = fs" by (auto intro: grows_antisym)
      with Cons.prems(1) show ?thesis by simp
    next
      case None
      show ?thesis
      proof (cases "lookup fs cur = Some Dir")
        case False
        with ne None Cons.prems(1) have "fs' = fs" by (auto split: option.splits node.splits)
        with Cons.prems have "g = fs" by (auto intro: grows_antisym)
        with Cons.prems(1) show ?thesis by simp
      next
        case d: True
        with Cons.prems(2) have dg: "lookup g cur = Some Dir" by (rule grows_lookup_some)
        show ?thesis
        proof (cases "name = ''.''")
          case True
          with ne None d Cons.prems(1) have "mkdir_walk fs cur names = (r, fs')" by simp
          then have "mkdir_walk g cur names = (r, fs')" using Cons.prems(2,3) by (rule Cons.IH)
          with True ne None dg show ?thesis by simp
        next
          case nd: False
          show ?thesis
          proof (cases "name = ''..''")
            case True
            with ne None d nd Cons.prems(1) have "mkdir_walk fs (butlast cur) names = (r, fs')" by simp
            then have "mkdir_walk g (butlast cur) names = (r, fs')"
              using Cons.prems(2,3) by (rule Cons.IH)
            with True ne None dg nd show ?thesis by simp
          next
            case ndd: False
            let ?q = "cur @ [name]"
            have q: "?q \<noteq> []" by simp
            show ?thesis
            proof (cases "lookup fs ?q = None")
              case True
              with ne None d nd ndd Cons.prems(1)
              have m: "mkdir_walk (fs(?q \<mapsto> Dir)) ?q names = (r, fs')" by simp
              then have "grows (fs(?q \<mapsto> Dir)) fs'" by (rule mkdir_walk_grows)
              then have fq: "fs' ?q = Some Dir" by (auto simp: grows_def dest: spec [of _ ?q])
              from True have fsq: "fs ?q = None" by (simp add: lookup_def)
              show ?thesis
              proof (cases "lookup g ?q = None")
                case gn: True
                then have gq: "g ?q = None" by (simp add: lookup_def)
                have a: "grows (fs(?q \<mapsto> Dir)) (g(?q \<mapsto> Dir))"
                  using Cons.prems(2) by (auto simp: grows_def)
                have b: "grows (g(?q \<mapsto> Dir)) fs'"
                  using Cons.prems(3) fq by (auto simp: grows_def)
                from m a b have "mkdir_walk (g(?q \<mapsto> Dir)) ?q names = (r, fs')" by (rule Cons.IH)
                with ne None dg nd ndd gn show ?thesis by simp
              next
                case gs: False
                from Cons.prems(2) fsq have "g ?q = None \<or> g ?q = Some Dir"
                  by (auto simp: grows_def dest: spec [of _ ?q])
                with gs have gq: "g ?q = Some Dir" by (auto simp: lookup_def)
                then have lg: "lookup g ?q = Some Dir" by (simp add: lookup_def)
                have a: "grows (fs(?q \<mapsto> Dir)) g"
                  using Cons.prems(2) gq by (auto simp: grows_def)
                from m a Cons.prems(3) have "mkdir_walk g ?q names = (r, fs')" by (rule Cons.IH)
                with ne None dg nd ndd lg show ?thesis by simp
              qed
            next
              case ex: False
              with ne None d nd ndd Cons.prems(1)
              have m: "mkdir_walk fs ?q names = (r, fs')" by simp
              from ex obtain n where "lookup fs ?q = Some n" by auto
              with Cons.prems(2) have gs: "lookup g ?q = Some n" by (rule grows_lookup_some)
              from m Cons.prems(2,3) have "mkdir_walk g ?q names = (r, fs')" by (rule Cons.IH)
              with ne None dg nd ndd gs show ?thesis by simp
            qed
          qed
        qed
      qed
    qed
  qed
qed

lemma mkdir_walk_again: "mkdir_walk fs cur names = (r, fs') \<Longrightarrow> mkdir_walk fs' cur names = (r, fs')"
  by (blast intro: mkdir_walk_between mkdir_walk_grows grows_refl)

lemma makedirs_again: "makedirs fs name = (r, fs') \<Longrightarrow> makedirs fs' name = (r, fs')"
  by (auto simp: makedirs_def split: if_splits intro: mkdir_walk_again)

lemma mkdir_walk_on_file:
  "lookup fs cur = Some (File x) \<Longrightarrow> fst (mkdir_walk fs cur names) \<noteq> None"
  by (induction names) (auto split: option.splits)

lemma mkdir_walk_dot:
  "name \<noteq> [] \<Longrightarrow> name_error name = None \<Longrightarrow> lookup fs cur = Some Dir \<Longrightarrow> name = ''.'' \<Longrightarrow>
   mkdir_walk fs cur (name # names) = mkdir_walk fs cur names"
  by simp

lemma mkdir_walk_dotdot:
  "name \<noteq> [] \<Longrightarrow> name_error name = None \<Longrightarrow> lookup fs cur = Some Dir \<Longrightarrow> name = ''..'' \<Longrightarrow>
   mkdir_walk fs cur (name # names) = mkdir_walk fs (butlast cur) names"
  by simp

lemma mkdir_walk_into:
  "name \<noteq> [] \<Longrightarrow> name_error name = None \<Longrightarrow> lookup fs cur = Some Dir \<Longrightarrow>
   name \<noteq> ''.'' \<Longrightarrow> name \<noteq> ''..'' \<Longrightarrow> lookup fs (cur @ [name]) = Some n \<Longrightarrow>
   mkdir_walk fs cur (name # names) = mkdir_walk fs (cur @ [name]) names"
  by simp

lemma mkdir_walk_upd:
  "mkdir_walk fs cur names = (None, fs) \<Longrightarrow> lookup fs q0 \<noteq> Some Dir \<Longrightarrow> v \<noteq> Some Dir \<Longrightarrow>
   mkdir_walk (fs(q0 := v)) cur names = (None, fs(q0 := v))"
proof (induction names arbitrary: cur)
  case Nil
  from Nil.prems(1) have d: "lookup fs cur = Some Dir" by (auto split: option.splits node.splits)
  with Nil.prems(2) have "q0 \<noteq> cur" by auto
  with d have "lookup (fs(q0 := v)) cur = Some Dir" by (simp add: lookup_upd_other)
  then show ?case by (simp only: mkdir_walk.simps option.case node.case)
next
  case (Cons name names)
  show ?case
  proof (cases "name = []")
    case True
    with Cons show ?thesis by simp
  next
    case ne: False
    with Cons.prems(1) have nn: "name_error name = None" by (auto split: option.splits)
    from ne nn Cons.prems(1) have d: "lookup fs cur = Some Dir"
      by (auto split: option.splits node.splits)
    with Cons.prems(2) have "q0 \<noteq> cur" by auto
    with d have d': "lookup (fs(q0 := v)) cur = Some Dir" by (simp add: lookup_upd_other)
    show ?thesis
    proof (cases "name = ''.''")
      case True
      with ne nn d Cons.prems(1) have "mkdir_walk fs cur names = (None, fs)" by simp
      then have a: "mkdir_walk (fs(q0 := v)) cur names = (None, fs(q0 := v))"
        using Cons.prems(2,3) by (rule Cons.IH)
      have b: "mkdir_walk (fs(q0 := v)) cur (name # names) = mkdir_walk (fs(q0 := v)) cur names"
        using ne nn d' True by (rule mkdir_walk_dot)
      from b a show ?thesis by (rule trans)
    next
      case nd: False
      show ?thesis
      proof (cases "name = ''..''")
        case True
        with ne nn d nd Cons.prems(1) have "mkdir_walk fs (butlast cur) names = (None, fs)" by simp
        then have a: "mkdir_walk (fs(q0 := v)) (butlast cur) names = (None, fs(q0 := v))"
          using Cons.prems(2,3) by (rule Cons.IH)
        have b: "mkdir_walk (fs(q0 := v)) cur (name # names)
                   = mkdir_walk (fs(q0 := v)) (butlast cur) names"
          using ne nn d' True by (rule mkdir_walk_dotdot)
        from b a show ?thesis by (rule trans)
      next
        case ndd: False
        let ?q = "cur @ [name]"
        have ex: "lookup fs ?q \<noteq> None"
        proof
          assume n: "lookup fs ?q = None"
          with ne nn d nd ndd Cons.prems(1)
          have "mkdir_walk (fs(?q \<mapsto> Dir)) ?q names = (None, fs)" by simp
          then have "grows (fs(?q \<mapsto> Dir)) fs" by (rule mkdir_walk_grows)
          then have "fs ?q = Some Dir" by (auto simp: grows_def dest: spec [of _ ?q])
          with n show False by (simp add: lookup_def)
        qed
        with ne nn d nd ndd Cons.prems(1) have m: "mkdir_walk fs ?q names = (None, fs)" by simp
        have qd: "lookup fs ?q = Some Dir"
        proof (rule ccontr)
          assume "lookup fs ?q \<noteq> Some Dir"
          with ex obtain x where "lookup fs ?q = Some (File x)"
            by (cases "lookup fs ?q") (auto intro: node.exhaust)
          then have "fst (mkdir_walk fs ?q names) \<noteq> None" by (rule mkdir_walk_on_file)
          with m show False by simp
        qed
        with Cons.prems(2) have "q0 \<noteq> ?q" by auto
        with qd have ex': "lookup (fs(q0 := v)) ?q = Some Dir" by (simp add: lookup_upd_other)
        from m Cons.prems(2,3) have a: "mkdir_walk (fs(q0 := v)) ?q names = (None, fs(q0 := v))"
          by (rule Cons.IH)
        have b: "mkdir_walk (fs(q0 := v)) cur (name # names) = mkdir_walk (fs(q0 := v)) ?q names"
          using ne nn d' nd ndd ex' by (rule mkdir_walk_into)
        from b a show ?thesis by (rule trans)
      qed
    qed
  qed
qed

lemma makedirs_upd:
  "makedirs fs name = (None, fs) \<Longrightarrow> lookup fs q0 \<noteq> Some Dir \<Longrightarrow> v \<noteq> Some Dir \<Longrightarrow>
   makedirs (fs(q0 := v)) name = (None, fs(q0 := v))"
  by (auto simp: makedirs_def split: if_splits intro: mkdir_walk_upd)

lemma open_w_success:
  assumes "open_w fs p = Inr (f, fs2)"
  shows "locate fs p = Inr f \<and> \<not> endswith p ''/'' \<and> lookup fs f \<noteq> Some Dir \<and> f \<noteq> [] \<and>
         fs2 = fs(f \<mapsto> File [])"
proof -
  from assms have a: "locate fs p = Inr f" and b: "\<not> endswith p ''/''"
    and c: "lookup fs f \<noteq> Some Dir" and d: "fs2 = fs(f \<mapsto> File [])"
    by (auto simp: open_w_def split: sum.splits if_splits)
  from c have "f \<noteq> []" by (rule lookup_not_dir_nonempty)
  with a b c d show ?thesis by simp
qed

lemma open_w_after_write:
  assumes "open_w fs p = Inr (f, fs2)"
  shows "open_w (fs(f \<mapsto> File t)) p = Inr (f, fs(f \<mapsto> File []))"
proof -
  from assms have a: "locate fs p = Inr f" and b: "\<not> endswith p ''/''"
    and c: "lookup fs f \<noteq> Some Dir" and ne: "f \<noteq> []"
    using open_w_success by blast+
  from a c have "locate (fs(f \<mapsto> File t)) p = Inr f" by (rule locate_upd)
  moreover have "lookup (fs(f \<mapsto> File t)) f = Some (File t)" using ne by (simp add: lookup_def)
  ultimately show ?thesis using b by (simp add: open_w_def)
qed

lemma write_file_again:
  assumes "write_file base p c fs = (r, fs')"
  shows "write_file base p c fs' = (r, fs')"
proof (cases "get_full_path base p")
  case (Inl e)
  with assms show ?thesis by (auto simp: write_file_def)
next
  case (Inr full)
  obtain r1 fs1 where mk: "makedirs fs (dirname full) = (r1, fs1)"
    by (cases "makedirs fs (dirname full)")
  then have mk1: "makedirs fs1 (dirname full) = (r1, fs1)" by (rule makedirs_again)
  show ?thesis
  proof (cases r1)
    case (Some e)
    with Inr mk assms have "r = Some e" and "fs' = fs1" by (auto simp: write_file_def)
    with Inr mk1 Some show ?thesis by (simp add: write_file_def)
  next
    case None
    show ?thesis
    proof (cases "open_w fs1 full")
      case (Inl e)
      with Inr mk None assms have "r = Some e" and "fs' = fs1" by (auto simp: write_file_def)
      with Inr mk1 None Inl show ?thesis by (simp add: write_file_def)
    next
      case (Inr ffs)
      obtain f fs2 where op: "open_w fs1 full = Inr (f, fs2)" using Inr by (cases ffs) auto
      then have nd: "lookup fs1 f \<noteq> Some Dir" and fs2: "fs2 = fs1(f \<mapsto> File [])"
        using open_w_success by blast+
      from mk1 None have mk0: "makedirs fs1 (dirname full) = (None, fs1)" by simp
      have mk2: "makedirs (fs1(f \<mapsto> File t)) (dirname full) = (None, fs1(f \<mapsto> File t))" for t
        using mk0 nd by (rule makedirs_upd) simp
      have op2: "open_w (fs1(f \<mapsto> File t)) full = Inr (f, fs1(f \<mapsto> File []))" for t
        using op by (rule open_w_after_write)
      have w: "write_file base p c fs =
                 (case c of JStr body \<Rightarrow> if has_surrogate body then (Some UnicodeEncodeError, fs1(f \<mapsto> File []))
                                       else (None, fs1(f \<mapsto> File body))
                  | _ \<Rightarrow> (Some TypeError, fs1(f \<mapsto> File [])))"
        using \<open>get_full_path base p = Inr full\<close> mk None op fs2
        by (simp add: write_file_def split: json.splits)
      have w2: "write_file base p c (fs1(f \<mapsto> File t)) =
                 (case c of JStr body \<Rightarrow> if has_surrogate body then (Some UnicodeEncodeError, fs1(f \<mapsto> File []))
                                       else (None, fs1(f \<mapsto> File body))
                  | _ \<Rightarrow> (Some TypeError, fs1(f \<mapsto> File [])))" for t
        using \<open>get_full_path base p = Inr full\<close> mk2 op2
        by (simp add: write_file_def split: json.splits)
      from w assms obtain t where "fs' = fs1(f \<mapsto> File t)"
        by (cases c) (auto split: if_splits)
      with w w2 [of t] assms show ?thesis by simp
    qed
  qed
qed

lemma write_file_content:
  assumes "write_file base p (JStr body) fs = (None, fs')" and "get_full_path base p = Inr full"
  shows "\<exists>f. locate fs' full = Inr f \<and> lookup fs' f = Some (File body)"
proof -
  obtain r1 fs1 where mk: "makedirs fs (dirname full) = (r1, fs1)"
    by (cases "makedirs fs (dirname full)")
  with assms have r1: "r1 = None" by (cases r1) (auto simp: write_file_def)
  from assms mk r1 obtain f fs2 where op: "open_w fs1 full = Inr (f, fs2)"
    by (cases "open_w fs1 full") (auto simp: write_file_def)
  then have lc: "locate fs1 full = Inr f" and nd: "lookup fs1 f \<noteq> Some Dir" and ne: "f \<noteq> []"
    and fs2: "fs2 = fs1(f \<mapsto> File [])"
    using open_w_success by blast+
  from assms mk r1 op fs2 have f': "fs' = fs1(f \<mapsto> File body)"
    by (auto simp: write_file_def split: if_splits)
  from lc nd have "locate (fs1(f \<mapsto> File body)) full = Inr f" by (rule locate_upd)
  moreover have "lookup (fs1(f \<mapsto> File body)) f = Some (File body)" using ne by (simp add: lookup_def)
  ultimately show ?thesis using f' by blast
qed

lemma delete_file_again:
  assumes "delete_file base p fs = (r, fs')"
  shows "delete_file base p fs' = (if r = None then (None, fs') else (r, fs'))"
proof (cases "get_full_path base p")
  case (Inl e)
  with assms show ?thesis by (auto simp: delete_file_def)
next
  case (Inr full)
  show ?thesis
  proof (cases "path_exists fs full")
    case False
    with Inr assms have "fs' = fs" and "r = None" by (simp_all add: delete_file_def)
    with False Inr show ?thesis by (simp add: delete_file_def)
  next
    case True
    show ?thesis
    proof (cases "remove_file fs full")
      case (Inl e)
      with True Inr assms have "fs' = fs" and "r = Some e" by (simp_all add: delete_file_def)
      with True Inr Inl show ?thesis by (simp add: delete_file_def)
    next
      case rm: (Inr fs1)
      with True Inr assms have f: "fs' = fs1" and rn: "r = None" by (simp_all add: delete_file_def)
      from rm obtain q x where lc: "locate fs full = Inr q" and lq: "lookup fs q = Some (File x)"
        and f1: "fs1 = fs(q := None)"
        by (auto simp: remove_file_def split: sum.splits option.splits node.splits if_splits)
      from lq have nd: "lookup fs q \<noteq> Some Dir" by simp
      then have ne: "q \<noteq> []" by (rule lookup_not_dir_nonempty)
      from lc nd have "locate (fs(q := None)) full = Inr q" by (rule locate_upd)
      moreover have "lookup (fs(q := None)) q = None" using ne by (simp add: lookup_def)
      ultimately have "\<not> path_exists fs1 full" using f1 by (simp add: path_exists_def)
      with Inr f rn show ?thesis by (simp add: delete_file_def)
    qed
  qed
qed

lemma delete_file_absent:
  "get_full_path base p = Inr full \<Longrightarrow> \<not> path_exists fs full \<Longrightarrow> delete_file base p fs = (None, fs)"
  by (simp add: delete_file_def)

section \<open>Properties of execute\_file\_actions\<close>

text \<open>
  C1 (the code fails the claim). \<open>get_full_path\<close> compares strings: the normal form of the
  joined path has to start with the characters of the project directory. With the project
  directory \<open>/ws/proj\<close> the relative path \<open>../proj2/x\<close> resolves to \<open>/ws/proj2/x\<close>, outside
  the directory, and passes the test; the create action is applied, not rejected, and writes
  \<open>data\<close> to \<open>/ws/proj2/x\<close>, whatever the collaborators and the console are.
\<close>

theorem create_in_sibling_directory_not_rejected:
  "(\<lambda>(r, fs, out). (r, fs [''ws'', ''proj2'', ''x''], out))
     (execute_file_actions env ''/ws/proj''
        [JObj [(''action'', JStr ''create''), (''path'', JStr ''../proj2/x''),
               (''content'', JStr ''data'')]]
        (Map.empty([''ws''] \<mapsto> Dir, [''ws'', ''proj''] \<mapsto> Dir), []))
   = (None, Some (File ''data''), [CreatedFile (JStr ''../proj2/x'')])
   \<and> get_full_path ''/ws/proj'' (JStr ''../proj2/x'') = Inr ''/ws/proj/../proj2/x''
   \<and> normpath ''/ws/proj/../proj2/x'' = ''/ws/proj2/x''
   \<and> resolve ''/ws/proj/../proj2/x'' = [''ws'', ''proj2'', ''x'']
   \<and> \<not> prefix (resolve ''/ws/proj'') [''ws'', ''proj2'', ''x'']"
  by code_simp

lemma print_line_ok: "\<forall>line. console_encodes env line \<Longrightarrow> print_line env t = None"
  by (simp add: print_line_def)














lemma utf8_lone_surrogate: "utf8 55296 = lone_surrogate"
proof -
  have "char_of (237 :: nat) = CHR 0xED" by code_simp
  moreover have "char_of (160 :: nat) = CHR 0xA0" by code_simp
  moreover have "char_of (128 :: nat) = CHR 0x80" by code_simp
  ultimately show ?thesis by (simp add: utf8_def lone_surrogate_def)
qed


lemma try_file_action_create_fs:
  "fst (snd (try_file_action env base (JStr ''create'') p c (fs, out))) = snd (write_file base p c fs)"
  by (cases "write_file base p c fs") (auto simp: try_file_action_def split: option.splits)

lemma try_file_action_delete_fs:
  "fst (snd (try_file_action env base (JStr ''delete'') p c (fs, out))) = snd (delete_file base p fs)"
  by (cases "delete_file base p fs") (auto simp: try_file_action_def split: option.splits)

lemma apply_file_action_fs:
  "fst (snd (apply_file_action env base ty p c st)) = fst (snd (try_file_action env base ty p c st))"
  by (cases "try_file_action env base ty p c st")
     (auto simp: apply_file_action_def split: option.splits)

lemma body_create_fs:
  "fst (snd (file_action_body env base
               [(''action'', JStr ''create''), (''path'', p), (''content'', c)] (fs, out)))
   = (if truthy p then snd (write_file base p c fs) else fs)"
  by (simp add: file_action_body_def dict_get_def Let_def apply_file_action_fs
        try_file_action_create_fs)

lemma body_delete_fs:
  "fst (snd (file_action_body env base [(''action'', JStr ''delete''), (''path'', p)] (fs, out)))
   = (if truthy p then snd (delete_file base p fs) else fs)"
  by (simp add: file_action_body_def dict_get_def Let_def apply_file_action_fs
        try_file_action_delete_fs)

lemma execute_single_fs:
  "fst (snd (execute_file_actions env base [JObj d] st)) = fst (snd (file_action_body env base d st))"
  by (cases "file_action_body env base d st") (auto split: option.splits)

lemma execute_double_fs:
  "fst (snd (execute_file_actions env base [JObj d, JObj d] st))
   = (case file_action_body env base d st of
        (None, st') \<Rightarrow> fst (snd (file_action_body env base d st'))
      | (Some e, st') \<Rightarrow> fst st')"
proof (cases "file_action_body env base d st")
  case (fields r fs' out')
  show ?thesis
  proof (cases r)
    case None
    with fields show ?thesis
      by (cases "file_action_body env base d (fs', out')") (auto split: option.splits)
  next
    case (Some e)
    with fields show ?thesis by simp
  qed
qed

lemma delete_file_absent_fs:
  "\<not> path_exists fs (path_join base rel) \<Longrightarrow> snd (delete_file base (JStr rel) fs) = fs"
  by (auto simp: delete_file_def get_full_path_def Let_def split: sum.splits if_splits)

lemma delete_action_absent:
  assumes "\<not> path_exists fs (path_join base rel)"
  shows "fst (snd (execute_file_actions env base
                     [JObj [(''action'', JStr ''delete''), (''path'', JStr rel)]] (fs, out))) = fs"
proof -
  have "fst (snd (execute_file_actions env base
                     [JObj [(''action'', JStr ''delete''), (''path'', JStr rel)]] (fs, out)))
        = (if truthy (JStr rel) then snd (delete_file base (JStr rel) fs) else fs)"
    by (simp only: execute_single_fs body_delete_fs)
  with delete_file_absent_fs [OF assms] show ?thesis by simp
qed

lemma create_action_twice:
  "fst (snd (execute_file_actions env base
               [JObj [(''action'', JStr ''create''), (''path'', p), (''content'', c)],
                JObj [(''action'', JStr ''create''), (''path'', p), (''content'', c)]] (fs, out)))
   = fst (snd (execute_file_actions env base
               [JObj [(''action'', JStr ''create''), (''path'', p), (''content'', c)]] (fs, out)))"
proof -
  let ?a = "[(''action'', JStr ''create''), (''path'', p), (''content'', c)]"
  obtain r fs1 out1 where b: "file_action_body env base ?a (fs, out) = (r, fs1, out1)"
    by (cases "file_action_body env base ?a (fs, out)")
  with body_create_fs [of env base p c fs out]
  have f1: "fs1 = (if truthy p then snd (write_file base p c fs) else fs)" by simp
  have again: "snd (write_file base p c (snd (write_file base p c fs))) = snd (write_file base p c fs)"
    by (cases "write_file base p c fs") (simp add: write_file_again)
  have x: "fst (snd (file_action_body env base ?a (fs1, out1))) = fs1"
    using f1 again by (simp add: body_create_fs)
  have l: "fst (snd (execute_file_actions env base [JObj ?a, JObj ?a] (fs, out)))
           = (case file_action_body env base ?a (fs, out) of
                (None, st') \<Rightarrow> fst (snd (file_action_body env base ?a st'))
              | (Some e, st') \<Rightarrow> fst st')"
    by (rule execute_double_fs)
  have s: "fst (snd (execute_file_actions env base [JObj ?a] (fs, out)))
           = fst (snd (file_action_body env base ?a (fs, out)))"
    by (rule execute_single_fs)
  show ?thesis unfolding l s using b x by (cases r) simp_all
qed


text \<open>
  C9 (amended). \<open>delete_file\<close> on a path that the sandbox check accepts and that does not
  exist returns without an exception and leaves the file system as it was. Deleting is
  idempotent: a second \<open>delete_file\<close> of the same path gives the same outcome and
  changes nothing more. Writing the same path and content a second time gives the same
  outcome and the same file system as writing it once; after a write that succeeded the
  path names a file with the content written. For the actions: a delete action on a path
  that does not exist leaves the file system as it was, and the file system after the same
  create action applied twice is the file system after it was applied once, whatever
  the console is.
\<close>

theorem delete_absent_create_twice:
  "(get_full_path base_dir p = Inr full \<and> \<not> path_exists fs full \<longrightarrow>
      delete_file base_dir p fs = (None, fs)) \<and>
   delete_file base_dir p (snd (delete_file base_dir p fs)) = delete_file base_dir p fs \<and>
   write_file base_dir q c (snd (write_file base_dir q c fs)) = write_file base_dir q c fs \<and>
   (get_full_path base_dir q = Inr full' \<and> write_file base_dir q (JStr body) fs = (None, fs') \<longrightarrow>
      (\<exists>f. locate fs' full' = Inr f \<and> lookup fs' f = Some (File body)) \<and>
      write_file base_dir q (JStr body) fs' = (None, fs')) \<and>
   (\<not> path_exists fs (path_join base_dir rel) \<longrightarrow>
      fst (snd (execute_file_actions env base_dir
                  [JObj [(''action'', JStr ''delete''), (''path'', JStr rel)]] (fs, out))) = fs) \<and>
   fst (snd (execute_file_actions env base_dir
               [JObj [(''action'', JStr ''create''), (''path'', q), (''content'', c)],
                JObj [(''action'', JStr ''create''), (''path'', q), (''content'', c)]] (fs, out)))
   = fst (snd (execute_file_actions env base_dir
               [JObj [(''action'', JStr ''create''), (''path'', q), (''content'', c)]] (fs, out)))"
proof -
  have a: "delete_file base_dir p fs = (None, fs)"
    if "get_full_path base_dir p = Inr full" and "\<not> path_exists fs full"
    using that by (rule delete_file_absent)
  have b: "delete_file base_dir p (snd (delete_file base_dir p fs)) = delete_file base_dir p fs"
    by (cases "delete_file base_dir p fs") (simp add: delete_file_again)
  have c: "write_file base_dir q c (snd (write_file base_dir q c fs)) = write_file base_dir q c fs"
    by (cases "write_file base_dir q c fs") (simp add: write_file_again)
  have d: "(\<exists>f. locate fs' full' = Inr f \<and> lookup fs' f = Some (File body)) \<and>
      write_file base_dir q (JStr body) fs' = (None, fs')"
    if "get_full_path base_dir q = Inr full'" and "write_file base_dir q (JStr body) fs = (None, fs')"
    using that write_file_content write_file_again by blast
  have e: "fst (snd (execute_file_actions env base_dir
                  [JObj [(''action'', JStr ''delete''), (''path'', JStr rel)]] (fs, out))) = fs"
    if "\<not> path_exists fs (path_join base_dir rel)"
    using that by (rule delete_action_absent)
  note g = create_action_twice [of env base_dir q c fs out]
  from a b c d e g show ?thesis by blast
qed

text \<open>
  In the project directory \<open>/ws/proj\<close>: deleting \<open>gone.txt\<close>, which does not exist, and
  writing \<open>x\<close> to \<open>a.txt\<close>.
\<close>

theorem delete_absent_create_twice_witness:
  "get_full_path ''/ws/proj'' (JStr ''gone.txt'') = Inr ''/ws/proj/gone.txt'' \<and>
   \<not> path_exists example_fs ''/ws/proj/gone.txt'' \<and>
   delete_file ''/ws/proj'' (JStr ''gone.txt'') example_fs = (None, example_fs) \<and>
   get_full_path ''/ws/proj'' (JStr ''a.txt'') = Inr ''/ws/proj/a.txt'' \<and>
   fst (write_file ''/ws/proj'' (JStr ''a.txt'') (JStr ''x'') example_fs) = None \<and>
   (\<exists>f. locate (snd (write_file ''/ws/proj'' (JStr ''a.txt'') (JStr ''x'') example_fs)) ''/ws/proj/a.txt''
           = Inr f \<and>
        lookup (snd (write_file ''/ws/proj'' (JStr ''a.txt'') (JStr ''x'') example_fs)) f
           = Some (File ''x'')) \<and>
   \<not> path_exists example_fs (path_join ''/ws/proj'' ''gone.txt'') \<and>
   fst (snd (execute_file_actions quiet_env ''/ws/proj''
               [JObj [(''action'', JStr ''delete''), (''path'', JStr ''gone.txt'')]] (example_fs, [])))
     = example_fs"
proof -
  have h1: "get_full_path ''/ws/proj'' (JStr ''gone.txt'') = Inr ''/ws/proj/gone.txt''"
    by code_simp
  have h2: "\<not> path_exists example_fs ''/ws/proj/gone.txt''"
    unfolding example_fs_def by code_simp
  have h3: "get_full_path ''/ws/proj'' (JStr ''a.txt'') = Inr ''/ws/proj/a.txt''"
    by code_simp
  have h4: "fst (write_file ''/ws/proj'' (JStr ''a.txt'') (JStr ''x'') example_fs) = None"
    unfolding example_fs_def by code_simp
  then have h5: "write_file ''/ws/proj'' (JStr ''a.txt'') (JStr ''x'') example_fs
                   = (None, snd (write_file ''/ws/proj'' (JStr ''a.txt'') (JStr ''x'') example_fs))"
    by (cases "write_file ''/ws/proj'' (JStr ''a.txt'') (JStr ''x'') example_fs") simp
  have h6: "\<not> path_exists example_fs (path_join ''/ws/proj'' ''gone.txt'')"
    unfolding example_fs_def by code_simp
  show ?thesis
    using h1 h2 h3 h4 h5 h6
      delete_absent_create_twice [of "''/ws/proj''" "JStr ''gone.txt''" "''/ws/proj/gone.txt''"
        example_fs "JStr ''a.txt''" "JStr ''x''" "''/ws/proj/a.txt''" "''x''"
        "snd (write_file ''/ws/proj'' (JStr ''a.txt'') (JStr ''x'') example_fs)"
        "''gone.txt''" quiet_env "[]"]
    by blast
qed

text \<open>
  C9 as stated fails: \<open>../gone.txt\<close> does not exist, and deleting it in the project
  directory \<open>/ws/proj\<close> raises the \<open>ValueError\<close> of the sandbox check.
\<close>

theorem delete_absent_rejected_path_raises:
  "\<not> path_exists example_fs (path_join ''/ws/proj'' ''../gone.txt'') \<and>
   fst (delete_file ''/ws/proj'' (JStr ''../gone.txt'') example_fs)
     = Some (ValueError ''Path traversal detected: ../gone.txt'')"
  unfolding example_fs_def by code_simp

section \<open>Properties of execute\_shell\_actions\<close>







section \<open>Properties of json.loads and parse\_response\<close>













lemma find_from_skip:
  "c \<notin> set pre \<Longrightarrow> find_from (pre @ c # rest) [c] i = i + int (length pre)"
  by (induction pre arbitrary: i) auto

lemma rfind_from_none: "c \<notin> set post \<Longrightarrow> rfind_from post [c] i = - 1"
  by (induction post arbitrary: i) (auto simp: Let_def)

lemma rfind_from_last:
  "c \<notin> set post \<Longrightarrow> 0 \<le> i \<Longrightarrow> rfind_from (s @ c # post) [c] i = i + int (length s)"
proof (induction s arbitrary: i)
  case Nil
  then show ?case by (simp add: rfind_from_none Let_def)
next
  case (Cons a s)
  then have "rfind_from (s @ c # post) [c] (i + 1) = i + 1 + int (length s)" by simp
  with Cons.prems show ?case by (simp add: Let_def)
qed


lemma slice_middle:
  "slice (pre @ mid @ post) (int (length pre)) (int (length pre) + int (length mid)) = mid"
  by (simp add: slice_def nat_add_distrib)

lemma json_loads_example:
  "json_loads example_payload =
     Inr (JObj [(''explanation'', JStr ''x''), (''file_actions'', JArr []),
                (''shell_actions'', JArr [JStr ''echo hi''])])"
  by code_simp

lemma example_payload_shape:
  "\<exists>body. example_payload = CHR ''{'' # body @ [CHR ''}'']"
  by (simp add: example_payload_def)

lemma parse_response_block:
  assumes "CHR ''{'' \<notin> set pre" and "CHR ''}'' \<notin> set post"
    and "extract_text response = Inr (pre @ (CHR ''{'' # body @ [CHR ''}'']) @ post)"
  shows "parse_response response =
     (case json_loads (CHR ''{'' # body @ [CHR ''}'']) of Inr actions \<Rightarrow> actions | Inl e \<Rightarrow> empty_actions)"
proof -
  let ?p = "CHR ''{'' # body @ [CHR ''}'']"
  let ?t = "pre @ ?p @ post"
  have "find_from (pre @ CHR ''{'' # (body @ [CHR ''}''] @ post)) ''{'' 0 = 0 + int (length pre)"
    using assms(1) by (rule find_from_skip)
  then have f: "py_find ?t ''{'' = int (length pre)" by (simp add: py_find_def)
  have "rfind_from ((pre @ CHR ''{'' # body) @ CHR ''}'' # post) ''}'' 0
          = 0 + int (length (pre @ CHR ''{'' # body))"
    using assms(2) by (rule rfind_from_last) simp
  then have r: "py_rfind ?t ''}'' + 1 = int (length pre) + int (length ?p)"
    by (simp add: py_rfind_def)
  have s: "slice ?t (int (length pre)) (int (length pre) + int (length ?p)) = ?p"
    by (rule slice_middle)
  have pr: "parse_response response =
      (if 0 \<le> py_find ?t ''{'' \<and> py_rfind ?t ''}'' + 1 > py_find ?t ''{''
       then (case json_loads (slice ?t (py_find ?t ''{'') (py_rfind ?t ''}'' + 1)) of
               Inr actions \<Rightarrow> actions | Inl e \<Rightarrow> empty_actions)
       else empty_actions)"
    unfolding parse_response_def assms(3) Let_def by simp
  show ?thesis unfolding pr f r s by simp
qed

lemma parse_response_payload:
  assumes "CHR ''{'' \<notin> set pre" and "CHR ''}'' \<notin> set post"
    and "extract_text response = Inr (pre @ example_payload @ post)"
  shows "parse_response response =
     JObj [(''explanation'', JStr ''x''), (''file_actions'', JArr []),
           (''shell_actions'', JArr [JStr ''echo hi''])]"
proof -
  obtain body where b: "example_payload = CHR ''{'' # body @ [CHR ''}'']"
    using example_payload_shape by blast
  show ?thesis
    using parse_response_block [of pre post response body] assms json_loads_example
    unfolding b by simp
qed

text \<open>
  C2 (amended). When the prose before the payload
  \<open>{"explanation":"x","file_actions":[],"shell_actions":["echo hi"]}\<close> has no opening brace
  and the prose after it has no closing brace, \<open>parse_response\<close> returns actions whose
  shell-action list is the one-element list \<open>["echo hi"]\<close> and whose file-action list is
  empty.
\<close>

theorem parse_payload_in_prose:
  assumes "CHR ''{'' \<notin> set pre" and "CHR ''}'' \<notin> set post"
    and "extract_text response = Inr (pre @ example_payload @ post)"
  shows "actions_get (parse_response response) ''shell_actions'' = Inr (JArr [JStr ''echo hi''])
       \<and> actions_get (parse_response response) ''file_actions'' = Inr (JArr [])"
  using parse_response_payload [OF assms] by (simp add: actions_get_def dict_get_def)

text \<open>
  The payload between the prose \<open>Here is my plan:\<close> and \<open>Good luck!\<close>.
\<close>

theorem parse_payload_in_prose_witness:
  "actions_get (parse_response (OtherObject (''Here is my plan: '' @ example_payload @ '' Good luck!'')))
     ''shell_actions'' = Inr (JArr [JStr ''echo hi''])
   \<and> actions_get (parse_response (OtherObject (''Here is my plan: '' @ example_payload @ '' Good luck!'')))
     ''file_actions'' = Inr (JArr [])"
  using parse_payload_in_prose [of "''Here is my plan: ''" "'' Good luck!''"
              "OtherObject (''Here is my plan: '' @ example_payload @ '' Good luck!'')"]
  by simp

text \<open>
  C2 as stated fails: with the prose \<open>Plan {draft}:\<close> before the payload the text from
  the first opening brace to the last closing brace is not JSON, and the result is the
  empty actions; the shell-action list is empty.
\<close>

theorem prose_with_brace_defeats_parse:
  "parse_response (OtherObject (''Plan {draft}: '' @ example_payload)) = empty_actions
   \<and> actions_get (parse_response (OtherObject (''Plan {draft}: '' @ example_payload)))
        ''shell_actions'' = Inr (JArr [])
   \<and> actions_get (parse_response (OtherObject (''Plan {draft}: '' @ example_payload)))
        ''shell_actions'' \<noteq> Inr (JArr [JStr ''echo hi''])"
  by code_simp




section \<open>Properties of run\_cycle\<close>

lemma iteration_result:
  assumes "iteration env b pp topic i c = Inr (a, c')"
  shows "completed c' = completed c @ [(i, a)] \<and> loop_i c' = Some i \<and>
         (\<exists>result. current_result c' = Some result \<and> a = analyze result)"
  using assms
  by (auto simp: iteration_def Let_def split: prod.splits sum.splits option.splits)

lemma run_loop_trace:
  "run_loop env b pp topic r i c = Inr c' \<Longrightarrow>
     \<exists>new. completed c' = completed c @ new \<and> length new \<le> r \<and>
           map fst new = [i ..< i + length new] \<and>
           list_all (\<lambda>(j, a). \<not> terminate a) (butlast new) \<and>
           (length new = r \<or> (new \<noteq> [] \<and> terminate (snd (last new)))) \<and>
           loop_i c' = (if new = [] then loop_i c else Some (i + length new - 1))"
proof (induction r arbitrary: i c)
  case 0
  then show ?case by simp
next
  case (Suc r)
  from Suc.prems obtain a c1 where it: "iteration env b pp topic i c = Inr (a, c1)"
    by (auto split: sum.splits)
  then have c1: "completed c1 = completed c @ [(i, a)]" and l1: "loop_i c1 = Some i"
    using iteration_result by blast+
  show ?case
  proof (cases "terminate a")
    case True
    with it Suc.prems have "c' = c1" by (simp split: option.splits)
    with c1 l1 True show ?thesis
      by (intro exI [of _ "[(i, a)]"]) simp
  next
    case False
    with it Suc.prems have "run_loop env b pp topic r (Suc i) c1 = Inr c'" by simp
    then obtain new where n: "completed c' = completed c1 @ new" "length new \<le> r"
        "map fst new = [Suc i ..< Suc i + length new]"
        "list_all (\<lambda>(j, a). \<not> terminate a) (butlast new)"
        "length new = r \<or> (new \<noteq> [] \<and> terminate (snd (last new)))"
        "loop_i c' = (if new = [] then loop_i c1 else Some (Suc i + length new - 1))"
      using Suc.IH by blast
    have "[i ..< Suc (i + length new)] = i # [Suc i ..< Suc (i + length new)]"
      by (rule upt_conv_Cons) simp
    then have "map fst ((i, a) # new) = [i ..< i + length ((i, a) # new)]"
      using n(3) by (simp del: upt_Suc)
    moreover have "list_all (\<lambda>(j, a). \<not> terminate a) (butlast ((i, a) # new))"
      using n(4) False by simp
    moreover have "length ((i, a) # new) = Suc r \<or>
        ((i, a) # new \<noteq> [] \<and> terminate (snd (last ((i, a) # new))))"
      using n(5) by auto
    moreover have "loop_i c' = (if (i, a) # new = [] then loop_i c
                                else Some (i + length ((i, a) # new) - 1))"
      using n(6) l1 by (cases new) auto
    moreover have "completed c' = completed c @ (i, a) # new" using n(1) c1 by simp
    moreover have "length ((i, a) # new) \<le> Suc r" using n(2) by simp
    ultimately show ?thesis by blast
  qed
qed

text \<open>
  C5 (amended). When \<open>run_cycle\<close> returns (nothing raised out of an iteration or of a
  \<open>print\<close>), with the bound \<open>iterations\<close>: it reports the number \<open>k\<close> of iterations it
  completed, these are the iterations \<open>0, ..., k - 1\<close>, and \<open>1 \<le> k \<le> iterations\<close>. If no
  completed iteration has \<open>terminate\<close> in its analysis, then \<open>k = iterations\<close>: exactly
  the bound. If an iteration has \<open>terminate\<close> in its analysis, it is the last one: no
  iteration is started after it, whatever remains of the bound.
\<close>

theorem run_cycle_iteration_count:
  assumes "run_cycle env base_dir project_path topic iterations w = Inr (k, c)"
  shows "k = length (completed c) \<and> 1 \<le> k \<and> int k \<le> iterations \<and>
         map fst (completed c) = [0 ..< k] \<and>
         (list_all (\<lambda>(j, a). \<not> terminate a) (completed c) \<longrightarrow> int k = iterations) \<and>
         (\<forall>j < k. terminate (snd (completed c ! j)) \<longrightarrow> Suc j = k)"
proof -
  let ?c0 = "\<lparr>files = fst w, outside = snd w, events = [], current_result = None,
              loop_i = None, completed = []\<rparr>"
  from assms obtain i where
    r: "run_loop env base_dir project_path topic (nat iterations) 0 ?c0 = Inr c"
    and i: "loop_i c = Some i" and k: "k = i + 1"
    by (auto simp: run_cycle_def split: sum.splits option.splits)
  from r obtain new where n: "completed c = completed ?c0 @ new" "length new \<le> nat iterations"
        "map fst new = [0 ..< 0 + length new]"
        "list_all (\<lambda>(j, a). \<not> terminate a) (butlast new)"
        "length new = nat iterations \<or> (new \<noteq> [] \<and> terminate (snd (last new)))"
        "loop_i c = (if new = [] then loop_i ?c0 else Some (0 + length new - 1))"
    using run_loop_trace by blast
  from n(1) have cn: "completed c = new" by simp
  from n(6) i have ne: "new \<noteq> []" and "i = length new - 1" by (auto split: if_splits)
  with k have kl: "k = length new" by (cases new) auto
  have a: "int k = iterations" if "list_all (\<lambda>(j, a). \<not> terminate a) new"
  proof -
    from ne have "last new \<in> set new" by (rule last_in_set)
    with that have "\<not> terminate (snd (last new))"
      by (cases "last new") (auto simp: list_all_iff)
    with n(5) have "length new = nat iterations" by simp
    with kl ne show ?thesis by (cases new) auto
  qed
  have b: "Suc j = k" if "j < k" and "terminate (snd (new ! j))" for j
  proof (rule ccontr)
    assume "Suc j \<noteq> k"
    with that(1) kl have lt: "j < length (butlast new)" by simp
    then have "butlast new ! j = new ! j" by (simp add: nth_butlast)
    moreover from n(4) lt have "\<not> terminate (snd (butlast new ! j))"
      by (cases "butlast new ! j") (auto simp: list_all_length)
    ultimately show False using that(2) by simp
  qed
  from kl ne n(2) have "1 \<le> k" and "int k \<le> iterations" by (cases new; auto)+
  with kl cn n(3) a b show ?thesis by auto
qed

lemma quiet_run:
  "map_sum id (\<lambda>(k, c). (k, map (\<lambda>(j, a). terminate a) (completed c)))
         (run_cycle quiet_env ''/ws/proj'' ''/ws/proj'' ''calculator'' 3 (example_fs, ()))
   = Inr (3, [False, False, False])"
  unfolding example_fs_def by code_simp

lemma finishing_run:
  "map_sum id (\<lambda>(k, c). (k, map (\<lambda>(j, a). terminate a) (completed c)))
         (run_cycle finishing_env ''/ws/proj'' ''/ws/proj'' ''calculator'' 3 (example_fs, ()))
   = Inr (1, [True])"
  unfolding example_fs_def by code_simp

text \<open>
  With the bound 3: \<open>quiet_env\<close> never signals \<open>terminate\<close> and the cycle completes 3
  iterations; \<open>finishing_env\<close> signals it in the first iteration and the cycle completes 1.
\<close>

theorem run_cycle_iteration_count_witness:
  "map_sum id (\<lambda>(k, c). (k, length (completed c)))
     (run_cycle quiet_env ''/ws/proj'' ''/ws/proj'' ''calculator'' 3 (example_fs, ())) = Inr (3, 3) \<and>
   map_sum id (\<lambda>(k, c). (k, length (completed c)))
     (run_cycle finishing_env ''/ws/proj'' ''/ws/proj'' ''calculator'' 3 (example_fs, ())) = Inr (1, 1)"
proof -
  from quiet_run obtain k c where
    q: "run_cycle quiet_env ''/ws/proj'' ''/ws/proj'' ''calculator'' 3 (example_fs, ()) = Inr (k, c)"
    and qt: "map (\<lambda>(j, a). terminate a) (completed c) = [False, False, False]"
    by (cases "run_cycle quiet_env ''/ws/proj'' ''/ws/proj'' ''calculator'' 3 (example_fs, ())") auto
  from qt have "list_all (\<lambda>b. \<not> b) (map (\<lambda>(j, a). terminate a) (completed c))" by simp
  then have "list_all (\<lambda>(j, a). \<not> terminate a) (completed c)"
    by (simp add: list_all_iff split_beta)
  with run_cycle_iteration_count [OF q] have q3: "k = 3" and ql: "length (completed c) = 3" by auto
  from finishing_run obtain k' c' where
    f: "run_cycle finishing_env ''/ws/proj'' ''/ws/proj'' ''calculator'' 3 (example_fs, ()) = Inr (k', c')"
    and ft: "map (\<lambda>(j, a). terminate a) (completed c') = [True]"
    by (cases "run_cycle finishing_env ''/ws/proj'' ''/ws/proj'' ''calculator'' 3 (example_fs, ())") auto
  from ft have "terminate (snd (completed c' ! 0))"
    by (cases "completed c'") (auto split: prod.splits)
  moreover from run_cycle_iteration_count [OF f] have "0 < k'" and "k' = length (completed c')"
    and "\<forall>j < k'. terminate (snd (completed c' ! j)) \<longrightarrow> Suc j = k'" by auto
  ultimately have "k' = 1" and "length (completed c') = 1" by auto
  with q f q3 ql show ?thesis by simp
qed

text \<open>
  C5 as stated fails. With the bound 3 and a model that answers \<open>{"file_actions": null}\<close>,
  \<open>actions.get("file_actions", [])\<close> is \<open>None\<close>, the loop of \<open>execute_file_actions\<close>
  over it raises \<open>TypeError\<close> outside every \<open>try\<close>, and the exception leaves \<open>run_cycle\<close>
  in the first iteration: no iteration signals \<open>terminate\<close>, and the cycle does not perform
  3 iterations.
\<close>

theorem null_file_actions_stop_cycle:
  "map_sum id fst
     (run_cycle null_actions_env ''/ws/proj'' ''/ws/proj'' ''calculator'' 3 (example_fs, ()))
   = Inl TypeError"
  unfolding example_fs_def by code_simp

lemma iteration_empty_result:
  assumes "iteration env b pp topic i c = Inr (a, c')" and "current_result c' = Some []"
  shows "a = analyze []"
  using assms by (auto simp: iteration_def Let_def split: prod.splits sum.splits option.splits)

text \<open>
  C10. The analysis of the empty transcript is \<open>success = False\<close>, \<open>terminate = False\<close>,
  \<open>reason = Empty result\<close>, with no other key (no pattern is looked up). The transcript
  of an empty list of shell actions is empty. An iteration whose transcript is empty does
  not end the loop: the loop goes on with the next index and what remains of the range.
\<close>

theorem empty_transcript_continues:
  "analyze [] = \<lparr>success = False, has_error = None, success_patterns = None, terminate = False,
                 reason = ''Empty result'', summary = None\<rparr> \<and>
   (check_directory env project_path w = Inr w1 \<longrightarrow>
      execute_shell_actions env project_path [] w = Inr ([], w1)) \<and>
   (iteration env base_dir project_path topic i c = Inr (a, c') \<and> current_result c' = Some [] \<longrightarrow>
      a = analyze [] \<and>
      run_loop env base_dir project_path topic (Suc remaining) i c
        = run_loop env base_dir project_path topic remaining (Suc i) c')"
proof -
  have x: "analyze [] = \<lparr>success = False, has_error = None, success_patterns = None,
                 terminate = False, reason = ''Empty result'', summary = None\<rparr>"
    by (simp add: analyze_def)
  have y: "execute_shell_actions env project_path [] w = Inr ([], w1)"
    if "check_directory env project_path w = Inr w1"
    using that by (simp add: execute_shell_actions_def)
  have z: "a = analyze [] \<and>
      run_loop env base_dir project_path topic (Suc remaining) i c
        = run_loop env base_dir project_path topic remaining (Suc i) c'"
    if h: "iteration env base_dir project_path topic i c = Inr (a, c')"
      and e: "current_result c' = Some []"
  proof -
    from h e have "a = analyze []" by (rule iteration_empty_result)
    with x have "\<not> terminate a" by simp
    with h \<open>a = analyze []\<close> show ?thesis by simp
  qed
  from x y z show ?thesis by blast
qed

text \<open>
  The first iteration in \<open>quiet_env\<close> has no shell action; the loop goes on with index 1.
\<close>

theorem empty_transcript_continues_witness:
  "execute_shell_actions quiet_env ''/ws/proj'' [] (example_fs, ()) = Inr ([], example_fs, ()) \<and>
   run_loop quiet_env ''/ws/proj'' ''/ws/proj'' ''calculator'' (Suc 2) 0
      \<lparr>files = example_fs, outside = (), events = [], current_result = None,
       loop_i = None, completed = []\<rparr>
   = run_loop quiet_env ''/ws/proj'' ''/ws/proj'' ''calculator'' 2 (Suc 0)
      \<lparr>files = example_fs, outside = (), events = [], current_result = Some [],
       loop_i = Some 0, completed = [(0, analyze [])]\<rparr>"
proof -
  let ?c0 = "\<lparr>files = example_fs, outside = (), events = [], current_result = None,
       loop_i = None, completed = []\<rparr>"
  let ?c1 = "\<lparr>files = example_fs, outside = (), events = [], current_result = Some [],
       loop_i = Some 0, completed = [(0, analyze [])]\<rparr>"
  have ok: "\<forall>line. console_encodes quiet_env line" by (simp add: quiet_env_def)
  have p: "path_exists example_fs ''/ws/proj''" unfolding example_fs_def by code_simp
  have e: "execute quiet_env ''/ws/proj'' cmd 300 (example_fs, ()) = (Inr ''ok'', example_fs, ())" for cmd
    using p by (simp add: execute_def run_command_def quiet_env_def)
  have h: "check_directory quiet_env ''/ws/proj'' (example_fs, ()) = Inr (example_fs, ())"
    by (simp add: check_directory_def e)
  have s: "execute_shell_actions quiet_env ''/ws/proj'' [] (example_fs, ()) = Inr ([], example_fs, ())"
    using h by (simp add: execute_shell_actions_def)
  have g: "generate_code quiet_env ''calculator'' None 0 (example_fs, ())
             = (Inr (OtherObject ''no actions this time''), ())"
    by (simp add: quiet_env_def)
  have r: "parse_response (OtherObject ''no actions this time'') = empty_actions" by code_simp
  have it: "iteration quiet_env ''/ws/proj'' ''/ws/proj'' ''calculator'' 0 ?c0 = Inr (analyze [], ?c1)"
    by (simp add: iteration_def g r s actions_get_def empty_actions_def dict_get_def Let_def
          print_line_ok [OF ok])
  show ?thesis
    using empty_transcript_continues [of quiet_env "''/ws/proj''" "(example_fs, ())" "(example_fs, ())" "''/ws/proj''"
                 "''calculator''" 0 ?c0 "analyze []" ?c1 2] h it
    by simp
qed

end
